theory Spec2Isabelle
  imports Complex_Main
begin

section \<open>Texts and objects of script.js\<close>

text \<open>
  Texts are modelled as \<^typ>\<open>string\<close>; a value that is a text or \<open>undefined\<close> is a
  \<^typ>\<open>string option\<close>, \<^term>\<open>None\<close> for \<open>undefined\<close>.
\<close>

type_synonym js_text = "string option"

text \<open>
  \<open>ToString\<close> of a text or \<open>undefined\<close>, as JavaScript applies it when such a value is
  used as a property key, in a template literal or as the argument of \<open>parseFloat\<close>.
\<close>

definition ToString :: "js_text \<Rightarrow> string" where
  "ToString v = (case v of None \<Rightarrow> ''undefined'' | Some t \<Rightarrow> t)"

text \<open>
  The script keeps its tables in objects written as \<open>{}\<close>. Such an object has its own
  properties and inherits the properties of \<open>Object.prototype\<close>, whose names are listed
  here. Reading a name that is not an own property gives the inherited property when there is
  one, and \<open>undefined\<close> otherwise. Assigning under a name creates or replaces an own
  property, except under \<open>__proto__\<close>, which is an inherited accessor: assigning a text to
  it does nothing, and assigning an object to it makes that object the prototype.
\<close>

definition objectPrototypeNames :: "string list" where
  "objectPrototypeNames =
     [''constructor'', ''__defineGetter__'', ''__defineSetter__'', ''hasOwnProperty'',
      ''__lookupGetter__'', ''__lookupSetter__'', ''isPrototypeOf'', ''propertyIsEnumerable'',
      ''toString'', ''valueOf'', ''__proto__'', ''toLocaleString'']"

text \<open>
  What reading a property gives: \<open>undefined\<close>, an object that the script stored, a text, or
  something inherited from \<open>Object.prototype\<close> (one of its functions, or the prototype
  itself under \<open>__proto__\<close>). All but \<open>undefined\<close> and the empty text are truthy.
\<close>

datatype 'a js_value = Undefined | Object 'a | Text string | Inherited

definition truthy :: "'a js_value \<Rightarrow> bool" where
  "truthy v = (case v of Undefined \<Rightarrow> False | Object x \<Rightarrow> True | Text t \<Rightarrow> t \<noteq> [] | Inherited \<Rightarrow> True)"

section \<open>The tabular parser\<close>

text \<open>
  A parsed record is an object whose own properties are all texts: a map from property name
  to text. The script reads from a record only names that \<open>Object.prototype\<close> does not
  have, so a read is a lookup among the own properties.
\<close>

type_synonym js_record = "string \<rightharpoonup> string"

subsection \<open>csvSplit\<close>

text \<open>
  The body of the \<open>for\<close> loop of \<open>csvSplit\<close> over the characters of the row that are still
  to be read; \<open>result\<close>, \<open>inQuotes\<close> and \<open>currentField\<close> are the three local variables.
  After the last character the current field is pushed.
\<close>

fun csvSplit_loop :: "string \<Rightarrow> string list \<Rightarrow> bool \<Rightarrow> string \<Rightarrow> string list" where
  "csvSplit_loop [] result inQuotes currentField = result @ [currentField]"
| "csvSplit_loop (c # row) result inQuotes currentField =
     (if c = CHR 0x22 then csvSplit_loop row result (\<not> inQuotes) currentField
      else if c = CHR '','' \<and> \<not> inQuotes then csvSplit_loop row (result @ [currentField]) inQuotes []
      else csvSplit_loop row result inQuotes (currentField @ [c]))"

definition csvSplit :: "string \<Rightarrow> string list" where
  "csvSplit row = csvSplit_loop row [] False []"

subsection \<open>csvToObjects\<close>

text \<open>\<open>csv.split("\n")\<close>: the pieces of the text between line feeds; never an empty list.\<close>

fun split_lines :: "string \<Rightarrow> string list" where
  "split_lines [] = [[]]"
| "split_lines (c # cs) =
     (if c = CHR 0x0A then [] # split_lines cs
      else (case split_lines cs of [] \<Rightarrow> [[c]] | l # ls \<Rightarrow> (c # l) # ls))"

text \<open>
  \<open>propertyNames[j]\<close> used as a property key: past the end of the header the read gives
  \<open>undefined\<close>, and the key is the text \<open>undefined\<close>.
\<close>

definition propertyKey :: "string list \<Rightarrow> nat \<Rightarrow> string" where
  "propertyKey propertyNames j =
     ToString (if j < length propertyNames then Some (propertyNames ! j) else None)"

text \<open>
  \<open>thisObject[key] = value\<close> for a text \<open>value\<close>, on a record built from \<open>{}\<close> by such
  assignments: under \<open>__proto__\<close> the assignment is ignored.
\<close>

definition setField :: "js_record \<Rightarrow> string \<Rightarrow> string \<Rightarrow> js_record" where
  "setField thisObject key v = (if key = ''__proto__'' then thisObject else thisObject(key \<mapsto> v))"

text \<open>The inner loop: \<open>thisObject[propertyNames[j]] = row[j]\<close> for \<open>j\<close> from 0 below \<open>row.length\<close>.\<close>

definition rowObject :: "string list \<Rightarrow> string list \<Rightarrow> js_record" where
  "rowObject propertyNames row =
     fold (\<lambda>j thisObject. setField thisObject (propertyKey propertyNames j) (row ! j))
       [0 ..< length row] Map.empty"

definition csvToObjects :: "string \<Rightarrow> js_record list" where
  "csvToObjects csv =
     (let csvRows = split_lines csv;
          propertyNames = csvSplit (hd csvRows)
      in map (\<lambda>r. rowObject propertyNames (csvSplit r)) (tl csvRows))"

section \<open>Numbers read from text\<close>

text \<open>
  The result of \<open>parseFloat\<close>. \<open>NaN\<close> is not-a-number. \<open>Decimal neg m e\<close> is the Number that
  JavaScript gives a decimal literal of value \<open>m\<close> times ten to the \<open>e\<close>, negated when
  \<open>neg\<close> holds: the double nearest to that value. \<open>Infinity neg\<close> is the Number of the
  literal \<open>Infinity\<close>. Equal terms are equal Numbers, and a term other than \<open>NaN\<close> is a
  Number other than not-a-number. Different terms may be one Number (\<open>Decimal False 145 (- 1)\<close>
  and \<open>Decimal False 1450 (- 2)\<close>; a decimal beyond the range of doubles and an infinity):
  nothing below rests on two terms being different, except on a term being different from
  \<open>NaN\<close>.
\<close>

datatype js_number = NaN | Infinity bool | Decimal bool nat int

text \<open>
  The white space that \<open>parseFloat\<close> skips and \<open>trim\<close> removes (\<open>StrWhiteSpaceChar\<close>):
  tab, line feed, vertical tab, form feed, carriage return, space and no-break space. The
  white space characters above U+00FF are outside \<^typ>\<open>char\<close>.
\<close>

definition isStrWhiteSpaceChar :: "char \<Rightarrow> bool" where
  "isStrWhiteSpaceChar c =
     (c = CHR 0x09 \<or> c = CHR 0x0A \<or> c = CHR 0x0B \<or> c = CHR 0x0C \<or> c = CHR 0x0D \<or>
      c = CHR 0x20 \<or> c = CHR 0xA0)"

definition isDecimalDigit :: "char \<Rightarrow> bool" where
  "isDecimalDigit c = (c \<in> set ''0123456789'')"

definition digitsValue :: "string \<Rightarrow> nat" where
  "digitsValue ds = foldl (\<lambda>n c. 10 * n + (of_char c - 48)) 0 ds"

text \<open>
  The value of the longest \<open>ExponentPart\<close> (\<open>e\<close> or \<open>E\<close>, an optional sign, at least
  one digit) at the start of a text, and 0 when the text does not start with one.
\<close>

definition exponentPart :: "string \<Rightarrow> int" where
  "exponentPart t =
     (case t of
        [] \<Rightarrow> 0
      | c # u \<Rightarrow>
          if c = CHR ''e'' \<or> c = CHR ''E'' then
            (case u of
               [] \<Rightarrow> 0
             | s # v \<Rightarrow>
                 if s = CHR ''+'' \<and> takeWhile isDecimalDigit v \<noteq> []
                   then int (digitsValue (takeWhile isDecimalDigit v))
                 else if s = CHR ''-'' \<and> takeWhile isDecimalDigit v \<noteq> []
                   then - int (digitsValue (takeWhile isDecimalDigit v))
                 else int (digitsValue (takeWhile isDecimalDigit u)))
          else 0)"

text \<open>
  The longest prefix of a text that is a \<open>StrUnsignedDecimalLiteral\<close>: \<open>Infinity\<close>, or
  digits with an optional fraction and exponent, or a dot followed by digits and an optional
  exponent. Without such a prefix the result is \<open>NaN\<close>.
\<close>

definition strUnsignedDecimalLiteral :: "bool \<Rightarrow> string \<Rightarrow> js_number" where
  "strUnsignedDecimalLiteral neg t =
     (if take 8 t = ''Infinity'' then Infinity neg
      else
        let ip = takeWhile isDecimalDigit t; r = dropWhile isDecimalDigit t in
        (case r of
           [] \<Rightarrow> if ip = [] then NaN else Decimal neg (digitsValue ip) 0
         | c # r' \<Rightarrow>
             if c = CHR ''.'' then
               (let fp = takeWhile isDecimalDigit r'; r'' = dropWhile isDecimalDigit r' in
                if ip = [] \<and> fp = [] then NaN
                else Decimal neg (digitsValue (ip @ fp)) (exponentPart r'' - int (length fp)))
             else if ip = [] then NaN
             else Decimal neg (digitsValue ip) (exponentPart r)))"

text \<open>
  \<open>parseFloat\<close> of a text or \<open>undefined\<close>: the argument is converted to a text, leading
  white space is dropped, and the longest prefix that is a signed decimal literal is
  converted; what follows the prefix is ignored.
\<close>

definition parseFloat :: "js_text \<Rightarrow> js_number" where
  "parseFloat v =
     (let trimmed = dropWhile isStrWhiteSpaceChar (ToString v) in
      case trimmed of
        [] \<Rightarrow> NaN
      | c # u \<Rightarrow>
          if c = CHR ''+'' then strUnsignedDecimalLiteral False u
          else if c = CHR ''-'' then strUnsignedDecimalLiteral True u
          else strUnsignedDecimalLiteral False trimmed)"

section \<open>The data transformer\<close>

text \<open>A fault is a \<open>TypeError\<close> thrown on reading a property of \<open>undefined\<close> or \<open>null\<close>.\<close>

datatype fault = TypeError

text \<open>
  A marker with its popup. The markup of a popup is modelled by the three values that the
  template interpolates: the heading, the paragraph and the argument of the button's
  \<open>selectStation\<close> call.
\<close>

record popup =
  pp_name :: string
  pp_description :: string
  pp_station :: string

record marker =
  mk_lat :: js_number
  mk_lng :: js_number
  mk_popup :: popup

text \<open>
  A station of the roster. The text fields are copied from the parsed record and are
  \<open>undefined\<close> when the master table has no such column; \<open>marker\<close> is \<open>undefined\<close> until
  \<open>initializeApplication\<close> attaches one.
\<close>

record station =
  st_id :: js_text
  st_name :: js_text
  st_lat :: js_number
  st_lng :: js_number
  st_description :: js_text
  st_icon :: js_text
  st_marker :: "marker option"

record date_entry =
  de_description :: string
  de_audioUrl :: string

text \<open>
  The \<open>stations\<close> object of a date: its own properties, one entry per station id, and its
  prototype, which is \<open>Object.prototype\<close> (\<^term>\<open>None\<close>) unless an entry was assigned
  under \<open>__proto__\<close>; then that entry is the prototype, and \<open>Object.prototype\<close> is the
  prototype of the entry.
\<close>

record stations_object =
  so_own :: "string \<rightharpoonup> date_entry"
  so_proto :: "date_entry option"

definition emptyStations :: stations_object where
  "emptyStations = \<lparr>so_own = Map.empty, so_proto = None\<rparr>"

text \<open>\<open>stations[key]\<close>.\<close>

definition stationsGet :: "stations_object \<Rightarrow> string \<Rightarrow> date_entry js_value" where
  "stationsGet stations key =
     (case so_own stations key of
        Some entry \<Rightarrow> Object entry
      | None \<Rightarrow>
          (case so_proto stations of
             None \<Rightarrow> if key \<in> set objectPrototypeNames then Inherited else Undefined
           | Some entry \<Rightarrow>
               if key = ''__proto__'' then Object entry
               else if key = ''description'' then Text (de_description entry)
               else if key = ''audioUrl'' then Text (de_audioUrl entry)
               else if key \<in> set objectPrototypeNames then Inherited
               else Undefined))"

text \<open>\<open>stations[key] = entry\<close>.\<close>

definition stationsSet :: "stations_object \<Rightarrow> string \<Rightarrow> date_entry \<Rightarrow> stations_object" where
  "stationsSet stations key entry =
     (if key = ''__proto__'' \<and> so_own stations key = None
      then stations\<lparr>so_proto := Some entry\<rparr>
      else stations\<lparr>so_own := (so_own stations)(key \<mapsto> entry)\<rparr>)"

text \<open>
  \<open>dynamicData.description\<close> and \<open>dynamicData.audioUrl\<close> for a truthy value read from a
  \<open>stations\<close> object: only an entry has them.
\<close>

definition descriptionOf :: "date_entry js_value \<Rightarrow> js_text" where
  "descriptionOf dynamicData =
     (case dynamicData of Object entry \<Rightarrow> Some (de_description entry) | _ \<Rightarrow> None)"

definition audioUrlOf :: "date_entry js_value \<Rightarrow> js_text" where
  "audioUrlOf dynamicData =
     (case dynamicData of Object entry \<Rightarrow> Some (de_audioUrl entry) | _ \<Rightarrow> None)"

record date_content =
  dc_title :: string
  dc_context :: string
  dc_stations :: stations_object

text \<open>
  The global \<open>dateContent\<close> is an object whose own properties are the date contents, one
  per date tab; the tab names are those of \<open>sheetTabs\<close>, none of which \<open>Object.prototype\<close>
  has, so every assignment to it creates an own property. \<open>dateContent[key]\<close>:
\<close>

definition dateGet :: "(string \<rightharpoonup> date_content) \<Rightarrow> string \<Rightarrow> date_content js_value" where
  "dateGet dateContent key =
     (case dateContent key of
        Some content \<Rightarrow> Object content
      | None \<Rightarrow> if key \<in> set objectPrototypeNames then Inherited else Undefined)"

text \<open>
  \<open>title\<close>, \<open>context\<close> and \<open>stations\<close> of a value read from \<open>dateContent\<close>: a date
  content has them; what is inherited from \<open>Object.prototype\<close> has none of them.
\<close>

definition titleOf :: "date_content js_value \<Rightarrow> js_text" where
  "titleOf v = (case v of Object content \<Rightarrow> Some (dc_title content) | _ \<Rightarrow> None)"

definition contextOf :: "date_content js_value \<Rightarrow> js_text" where
  "contextOf v = (case v of Object content \<Rightarrow> Some (dc_context content) | _ \<Rightarrow> None)"

definition stationsOf :: "date_content js_value \<Rightarrow> stations_object option" where
  "stationsOf v = (case v of Object content \<Rightarrow> Some (dc_stations content) | _ \<Rightarrow> None)"

definition sheetTabs :: "string list" where
  "sheetTabs = [''Master'', ''Feb22'', ''Feb23'', ''Feb24'', ''Feb25'']"

text \<open>\<open>v || d\<close> for a text or \<open>undefined\<close> \<open>v\<close>: the empty text and \<open>undefined\<close> are falsy.\<close>

definition orElse :: "js_text \<Rightarrow> string \<Rightarrow> string" where
  "orElse v d = (case v of None \<Rightarrow> d | Some t \<Rightarrow> if t = [] then d else t)"

definition trim :: "string \<Rightarrow> string" where
  "trim t = rev (dropWhile isStrWhiteSpaceChar (rev (dropWhile isStrWhiteSpaceChar t)))"

text \<open>\<open>text.replace(pat, rep)\<close> for a text pattern: the first occurrence is replaced.\<close>

fun replaceFirst :: "string \<Rightarrow> string \<Rightarrow> string \<Rightarrow> string" where
  "replaceFirst pat rep [] = (if pat = [] then rep else [])"
| "replaceFirst pat rep (c # cs) =
     (if take (length pat) (c # cs) = pat then rep @ drop (length pat) (c # cs)
      else c # replaceFirst pat rep cs)"

text \<open>The function that \<open>transformSheetData\<close> maps over the master table.\<close>

definition masterStation :: "js_record \<Rightarrow> station" where
  "masterStation station =
     \<lparr>st_id = station ''id'',
      st_name = station ''name'',
      st_lat = parseFloat (station ''lat''),
      st_lng = parseFloat (station ''lng''),
      st_description = station ''description'',
      st_icon = station ''icon'',
      st_marker = None\<rparr>"

text \<open>The body of \<open>dateData.forEach\<close>: one record of a date table.\<close>

definition addStationData :: "js_record \<Rightarrow> stations_object \<Rightarrow> stations_object" where
  "addStationData stationData stations =
     (case stationData ''id'' of
        None \<Rightarrow> stations
      | Some i \<Rightarrow>
          if i \<noteq> [] \<and> trim i \<noteq> [] then
            stationsSet stations i
              \<lparr>de_description = orElse (stationData ''description'') ''No description available'',
               de_audioUrl = orElse (stationData ''audioUrl'') ''#''\<rparr>
          else stations)"

text \<open>
  The body of \<open>sheetTabs.forEach\<close>, over the tabs still to be processed. Reading the rows of
  a tab that \<open>allSheets\<close> does not have faults.
\<close>

fun processTabs ::
  "(string \<rightharpoonup> js_record list) \<Rightarrow> string list \<Rightarrow> (string \<rightharpoonup> date_content) \<Rightarrow>
   fault + (string \<rightharpoonup> date_content)" where
  "processTabs allSheets [] dateContent = Inr dateContent"
| "processTabs allSheets (tabName # tabs) dateContent =
     (if tabName \<noteq> ''Master'' then
        (case allSheets tabName of
           None \<Rightarrow> Inl TypeError
         | Some dateData \<Rightarrow>
             processTabs allSheets tabs
               (dateContent(tabName \<mapsto>
                  \<lparr>dc_title = ''February '' @ replaceFirst ''Feb'' [] tabName,
                   dc_context = ''context'',
                   dc_stations = fold addStationData dateData emptyStations\<rparr>)))
      else processTabs allSheets tabs dateContent)"

definition transformSheetData ::
  "(string \<rightharpoonup> js_record list) \<Rightarrow> fault + (station list \<times> (string \<rightharpoonup> date_content))" where
  "transformSheetData allSheets =
     (case allSheets ''Master'' of
        None \<Rightarrow> Inl TypeError
      | Some master \<Rightarrow>
          (case processTabs allSheets sheetTabs Map.empty of
             Inl f \<Rightarrow> Inl f
           | Inr dateContent \<Rightarrow> Inr (map masterStation master, dateContent)))"

section \<open>The page\<close>

text \<open>
  The state that the script reads and writes: its two global variables, the variables of
  \<open>initializeAudioPlayer\<close>, and the parts of the document, of the audio element and of the
  map that it assigns. An element that the script looks up and tests before use is optional
  (\<^term>\<open>None\<close> when the document has no such element); the other elements are taken to
  exist. What the audio element and the map do with the values they are given is theirs.
\<close>

text \<open>One rendered entry of the station list: its \<open>data-station\<close> attribute, whether it
  carries the class \<open>active\<close>, and the values interpolated into its markup.\<close>

record station_item =
  it_station :: string
  it_active :: bool
  it_name :: string
  it_icon :: string
  it_description :: string

text \<open>The current-station element: its \<open>data-id\<close> attribute (absent until set) and its text.\<close>

record current_station =
  cs_id :: "string option"
  cs_text :: string

record progress_display =
  pr_barWidth :: string
  pr_handleLeft :: string
  pr_currentTime :: string
  pr_duration :: string

datatype volume_icon = MutedIcon | LowIcon | HighIcon

text \<open>The lines written to the console, each with the values its message interpolates.\<close>

datatype diagnostic =
    WarnNoStationData js_text string
  | LogLoadingStation js_text js_text
  | WarnNoDateContent string
  | LogAvailableDateContent
  | LogLoadingContent string
  | ErrorStationListNotFound
  | LogNoDynamicData js_text string
  | LogStationsFound nat string
  | LogAutoPlayPrevented
  | LogAudioPlayFailed
  | LogAutoRestartPrevented

text \<open>
  What the platform answers to \<open>audio.play()\<close>: no promise at all, a promise that is
  fulfilled, or a promise that is rejected. The handlers below are given the answer and
  return the page as it is once the promise has settled.
\<close>

datatype play_result = NoPromise | Fulfilled | Rejected

record page =
  stations :: "station list"
  dateContent :: "string \<rightharpoonup> date_content"
  selectDate :: string
  infoSection :: "string option"
  contextTitle :: "string option"
  contextText :: "string option"
  stationList :: "station_item list option"
  currentStationEl :: "current_station option"
  stationDescriptionEl :: string
  audio_src :: "string option"
  audio_loop :: bool
  audio_currentTime :: real
  audio_volume :: real
  progress :: progress_display
  playBtn :: string
  isPlaying :: bool
  window_isPlaying :: bool
  isMuted :: bool
  lastVolume :: real
  volumeSlider :: real
  volumeBtn :: volume_icon
  volumePanelShown :: bool
  volumePanelTimeout :: bool
  mapView :: "js_number \<times> js_number \<times> nat"
  openPopup :: "js_text option"
  console :: "diagnostic list"

section \<open>The audio player\<close>

definition resetProgress :: "page \<Rightarrow> page" where
  "resetProgress p =
     p\<lparr>progress := \<lparr>pr_barWidth = ''0%'', pr_handleLeft = ''0px'',
                      pr_currentTime = ''0:00'', pr_duration = ''0:00''\<rparr>\<rparr>"

definition showVolumePanel :: "page \<Rightarrow> page" where
  "showVolumePanel p = p\<lparr>volumePanelShown := True, volumePanelTimeout := False\<rparr>"

definition updateVolumeButton :: "page \<Rightarrow> page" where
  "updateVolumeButton p =
     p\<lparr>volumeBtn :=
         (if isMuted p \<or> audio_volume p = 0 then MutedIcon
          else if audio_volume p < 0.5 then LowIcon
          else HighIcon)\<rparr>"

text \<open>The click handler of the volume button: the mute and unmute toggle.\<close>

definition volumeBtn_click :: "page \<Rightarrow> page" where
  "volumeBtn_click p =
     showVolumePanel (updateVolumeButton
       (if isMuted p then
          (let v = (if lastVolume p > 0 then lastVolume p else 0.7) in
           p\<lparr>audio_volume := v, volumeSlider := v, isMuted := False\<rparr>)
        else
          p\<lparr>lastVolume := audio_volume p, audio_volume := 0, volumeSlider := 0,
             isMuted := True\<rparr>))"

text \<open>
  The click handler of the play button. When nothing is playing it calls \<open>audio.play()\<close>
  and attaches a rejection handler to the promise, which faults if there is no promise; the
  rejection handler writes one console line. The label and \<open>isPlaying\<close> are set after the
  call, whatever its answer.
\<close>

definition playBtn_click :: "play_result \<Rightarrow> page \<Rightarrow> fault + page" where
  "playBtn_click played p =
     (if isPlaying p then Inr (p\<lparr>playBtn := ''Play'', isPlaying := False\<rparr>)
      else
        (case played of
           NoPromise \<Rightarrow> Inl TypeError
         | Fulfilled \<Rightarrow> Inr (p\<lparr>playBtn := ''Pause'', isPlaying := True\<rparr>)
         | Rejected \<Rightarrow>
             Inr (p\<lparr>playBtn := ''Pause'', isPlaying := True,
                    console := console p @ [LogAudioPlayFailed]\<rparr>)))"

text \<open>The handler of the audio element's \<open>ended\<close> event: restart from zero.\<close>

definition audio_ended :: "play_result \<Rightarrow> page \<Rightarrow> fault + page" where
  "audio_ended played p =
     (case played of
        NoPromise \<Rightarrow> Inl TypeError
      | Fulfilled \<Rightarrow> Inr (p\<lparr>audio_currentTime := 0\<rparr>)
      | Rejected \<Rightarrow>
          Inr (p\<lparr>audio_currentTime := 0,
                 console := console p @ [LogAutoRestartPrevented],
                 isPlaying := False, playBtn := ''Play''\<rparr>))"

text \<open>The variables and globals that \<open>initializeAudioPlayer\<close> initialises.\<close>

definition initializeAudioPlayer :: "page \<Rightarrow> page" where
  "initializeAudioPlayer p =
     p\<lparr>isPlaying := False, isMuted := False, lastVolume := 1, volumePanelTimeout := False,
        window_isPlaying := False\<rparr>"

section \<open>The selection state machine\<close>

definition setupDateSelector :: "page \<Rightarrow> page" where
  "setupDateSelector p = p\<lparr>selectDate := ''Feb22''\<rparr>"

text \<open>Assigning a text or \<open>undefined\<close> to \<open>textContent\<close>: \<open>undefined\<close> gives the empty text.\<close>

definition textContentOf :: "js_text \<Rightarrow> string" where
  "textContentOf v = (case v of None \<Rightarrow> [] | Some t \<Rightarrow> t)"

text \<open>The two handlers that \<open>selectStation\<close> attaches to the promise of \<open>play()\<close>.\<close>

definition autoPlaySettled :: "play_result \<Rightarrow> page \<Rightarrow> page" where
  "autoPlaySettled played p =
     (case played of
        NoPromise \<Rightarrow> p
      | Fulfilled \<Rightarrow> p\<lparr>window_isPlaying := True, playBtn := ''Pause''\<rparr>
      | Rejected \<Rightarrow>
          p\<lparr>console := console p @ [LogAutoPlayPrevented],
            window_isPlaying := False, playBtn := ''Play''\<rparr>)"

text \<open>
  \<open>dateSpecificContent.stations[key]\<close> for a truthy \<open>dateSpecificContent\<close> read from
  \<open>dateContent\<close>: indexing faults when there is no \<open>stations\<close>. With the optional chain,
  \<open>dateContent[selectedDateId]?.stations[key]\<close>, an \<open>undefined\<close> date gives \<open>undefined\<close>.
\<close>

definition stationsAt :: "date_content js_value \<Rightarrow> string \<Rightarrow> fault + date_entry js_value" where
  "stationsAt dateSpecificContent key =
     (case stationsOf dateSpecificContent of
        None \<Rightarrow> Inl TypeError
      | Some stations' \<Rightarrow> Inr (stationsGet stations' key))"

definition optionalStationsAt :: "date_content js_value \<Rightarrow> string \<Rightarrow> fault + date_entry js_value" where
  "optionalStationsAt v key = (case v of Undefined \<Rightarrow> Inr Undefined | _ \<Rightarrow> stationsAt v key)"

text \<open>
  \<open>selectStation(stationId)\<close>. The argument is a text or \<open>undefined\<close> (the \<open>id\<close> of a
  roster station may be). The station is the first of the roster with that \<open>id\<close>; the date
  is the value of the date selector.
\<close>

definition selectStation :: "play_result \<Rightarrow> js_text \<Rightarrow> page \<Rightarrow> fault + page" where
  "selectStation played stationId p =
     (let station = find (\<lambda>s. st_id s = stationId) (stations p);
          selectedDateId = selectDate p
      in case optionalStationsAt (dateGet (dateContent p) selectedDateId) (ToString stationId) of
           Inl f \<Rightarrow> Inl f
         | Inr dynamicData \<Rightarrow>
        (case station of
           None \<Rightarrow> Inr (p\<lparr>console := console p @ [WarnNoStationData stationId selectedDateId]\<rparr>)
         | Some station \<Rightarrow>
             if \<not> truthy dynamicData
             then Inr (p\<lparr>console := console p @ [WarnNoStationData stationId selectedDateId]\<rparr>)
             else
             (let p1 = p\<lparr>console := console p @ [LogLoadingStation stationId (audioUrlOf dynamicData)],
                         currentStationEl :=
                           map_option (\<lambda>el. el\<lparr>cs_id := Some (ToString stationId)\<rparr>)
                             (currentStationEl p),
                         stationList :=
                           map_option
                             (map (\<lambda>item. item\<lparr>it_active := (Some (it_station item) = stationId)\<rparr>))
                             (stationList p)\<rparr>
              in case currentStationEl p1 of
                   None \<Rightarrow> Inl TypeError
                 | Some el \<Rightarrow>
                     (let p2 = resetProgress
                                 (p1\<lparr>currentStationEl := Some (el\<lparr>cs_text := textContentOf (st_name station)\<rparr>),
                                     stationDescriptionEl := textContentOf (descriptionOf dynamicData),
                                     audio_src := Some (ToString (audioUrlOf dynamicData)),
                                     audio_loop := True\<rparr>);
                          p3 = p2\<lparr>audio_currentTime := 0,
                                  mapView := (st_lat station, st_lng station, 12)\<rparr>
                      in case st_marker station of
                           None \<Rightarrow> Inl TypeError
                         | Some m \<Rightarrow> Inr (autoPlaySettled played (p3\<lparr>openPopup := Some stationId\<rparr>))))))"

text \<open>
  The body of \<open>stations.forEach\<close> in \<open>changePanelContent\<close>, over the roster stations still to
  be rendered: the stations with their popups updated, the list entries created, and the
  console lines written.
\<close>

fun renderStations ::
  "string \<Rightarrow> date_content js_value \<Rightarrow> station list \<Rightarrow>
   fault + (station list \<times> station_item list \<times> diagnostic list)" where
  "renderStations selectedDateId dateSpecificContent [] = Inr ([], [], [])"
| "renderStations selectedDateId dateSpecificContent (fullStationData # rest) =
     (case stationsAt dateSpecificContent (ToString (st_id fullStationData)) of
        Inl f \<Rightarrow> Inl f
      | Inr dynamicData \<Rightarrow>
          if \<not> truthy dynamicData then
            (case renderStations selectedDateId dateSpecificContent rest of
               Inl f \<Rightarrow> Inl f
             | Inr (sts, items, lines) \<Rightarrow>
                 Inr (fullStationData # sts, items,
                      LogNoDynamicData (st_id fullStationData) selectedDateId # lines))
          else
            (case st_marker fullStationData of
               None \<Rightarrow> Inl TypeError
             | Some m \<Rightarrow>
                 (case renderStations selectedDateId dateSpecificContent rest of
                    Inl f \<Rightarrow> Inl f
                  | Inr (sts, items, lines) \<Rightarrow>
                      Inr (fullStationData\<lparr>st_marker := Some (m\<lparr>mk_popup :=
                             \<lparr>pp_name = ToString (st_name fullStationData),
                              pp_description = ToString (descriptionOf dynamicData),
                              pp_station = ToString (st_id fullStationData)\<rparr>\<rparr>)\<rparr> # sts,
                           \<lparr>it_station = ToString (st_id fullStationData),
                            it_active = False,
                            it_name = ToString (st_name fullStationData),
                            it_icon = ToString (st_icon fullStationData),
                            it_description = ToString (descriptionOf dynamicData)\<rparr> # items,
                           lines))))"

text \<open>\<open>window.currentStationEl?.dataset.id\<close>.\<close>

definition currentlySelectedId :: "page \<Rightarrow> string option" where
  "currentlySelectedId p = (case currentStationEl p of None \<Rightarrow> None | Some el \<Rightarrow> cs_id el)"

text \<open>
  The last branch of \<open>changePanelContent\<close>: select the first station of the roster for which
  \<open>dateSpecificContent.stations[station.id]\<close> is truthy.
\<close>

definition selectFirstWithData ::
  "play_result \<Rightarrow> date_content js_value \<Rightarrow> page \<Rightarrow> fault + page" where
  "selectFirstWithData played dateSpecificContent p =
     (if length (stations p) > 0 then
        (case stationsOf dateSpecificContent of
           None \<Rightarrow> Inl TypeError
         | Some stations' \<Rightarrow>
             (case find (\<lambda>station. truthy (stationsGet stations' (ToString (st_id station))))
                     (stations p) of
                None \<Rightarrow> Inr p
              | Some firstStationWithData \<Rightarrow> selectStation played (st_id firstStationWithData) p))
      else Inr p)"

text \<open>
  \<open>changePanelContent()\<close>, the handler of the date selector's \<open>change\<close> event, also called
  once by \<open>initializeApplication\<close>. It reads the date from the selector.
\<close>

definition changePanelContent :: "play_result \<Rightarrow> page \<Rightarrow> fault + page" where
  "changePanelContent played p =
     (let selectedDateId = selectDate p;
          dateSpecificContent = dateGet (dateContent p) selectedDateId
      in
      if \<not> truthy dateSpecificContent then
        Inr (p\<lparr>console := console p @ [WarnNoDateContent selectedDateId, LogAvailableDateContent]\<rparr>)
      else
          (let p1 = p\<lparr>console := console p @ [LogLoadingContent selectedDateId],
                      infoSection :=
                        map_option (\<lambda>_. ''Events of '' @ replaceFirst ''Feb'' ''February '' selectedDateId)
                          (infoSection p),
                      contextTitle :=
                        map_option (\<lambda>_. textContentOf (titleOf dateSpecificContent)) (contextTitle p),
                      contextText :=
                        map_option (\<lambda>_. textContentOf (contextOf dateSpecificContent)) (contextText p)\<rparr>
           in case stationList p1 of
                None \<Rightarrow> Inr (p1\<lparr>console := console p1 @ [ErrorStationListNotFound]\<rparr>)
              | Some _ \<Rightarrow>
                  (case renderStations selectedDateId dateSpecificContent (stations p1) of
                     Inl f \<Rightarrow> Inl f
                   | Inr (sts, items, lines) \<Rightarrow>
                       (let p2 = p1\<lparr>stations := sts,
                                   stationList := Some items,
                                   console := console p1 @ lines @
                                     [LogStationsFound (length items) selectedDateId]\<rparr>
                        in case currentlySelectedId p2 of
                             None \<Rightarrow> selectFirstWithData played dateSpecificContent p2
                           | Some i \<Rightarrow>
                               if i \<noteq> [] then
                                 (case stationsAt dateSpecificContent i of
                                    Inl f \<Rightarrow> Inl f
                                  | Inr selectedData \<Rightarrow>
                                      if truthy selectedData
                                      then selectStation played (Some i) p2
                                      else selectFirstWithData played dateSpecificContent p2)
                               else selectFirstWithData played dateSpecificContent p2))))"

text \<open>The marker that \<open>initializeApplication\<close> creates for a station.\<close>

definition addMarker :: "station \<Rightarrow> station" where
  "addMarker station =
     station\<lparr>st_marker := Some
       \<lparr>mk_lat = st_lat station, mk_lng = st_lng station,
        mk_popup = \<lparr>pp_name = ToString (st_name station),
                    pp_description = ToString (st_description station),
                    pp_station = ToString (st_id station)\<rparr>\<rparr>\<rparr>"

definition initializeApplication :: "play_result \<Rightarrow> page \<Rightarrow> fault + page" where
  "initializeApplication played p =
     changePanelContent played
       (setupDateSelector (initializeAudioPlayer (p\<lparr>stations := map addMarker (stations p)\<rparr>)))"

text \<open>
  \<open>loadAllTabs\<close> once every table has been fetched and parsed: the tables are transformed
  and the application is initialised on the page. A fault of either step is the error that
  the function's \<open>catch\<close> writes to the console.
\<close>

definition loadAllTabs :: "play_result \<Rightarrow> (string \<rightharpoonup> js_record list) \<Rightarrow> page \<Rightarrow> fault + page" where
  "loadAllTabs played allSheets p =
     (case transformSheetData allSheets of
        Inl f \<Rightarrow> Inl f
      | Inr (sts, content) \<Rightarrow>
          initializeApplication played (p\<lparr>stations := sts, dateContent := content\<rparr>))"

text \<open>
  The two user actions of the selection state machine: choosing a date in the selector
  (the selector takes the value, then its \<open>change\<close> handler runs) and choosing a station
  (a click on a marker, a popup button or a list entry).
\<close>

datatype event = SetDate string | SelectStation js_text

definition step :: "event \<Rightarrow> play_result \<Rightarrow> page \<Rightarrow> fault + page" where
  "step e played p =
     (case e of
        SetDate d \<Rightarrow> changePanelContent played (p\<lparr>selectDate := d\<rparr>)
      | SelectStation stationId \<Rightarrow> selectStation played stationId p)"

fun run :: "(event \<times> play_result) list \<Rightarrow> page \<Rightarrow> fault + page" where
  "run [] p = Inr p"
| "run ((e, played) # es) p =
     (case step e played p of Inl f \<Rightarrow> Inl f | Inr p' \<Rightarrow> run es p')"

section \<open>Vocabulary for stating the properties\<close>

subsection \<open>Rows written by a table writer\<close>







text \<open>The object under construction after the first \<open>n\<close> rounds of the inner loop.\<close>

definition assignUpto :: "string list \<Rightarrow> string list \<Rightarrow> nat \<Rightarrow> js_record" where
  "assignUpto propertyNames row n =
     fold (\<lambda>j thisObject. setField thisObject (propertyKey propertyNames j) (row ! j))
       [0 ..< n] Map.empty"

subsection \<open>Numeric text\<close>

text \<open>
  A text \<open>startsNumeric\<close> when, after an optional sign, it begins with \<open>Infinity\<close>, with a
  digit, or with a dot followed by a digit.
\<close>

definition startsNumeric :: "string \<Rightarrow> bool" where
  "startsNumeric t =
     (let u = (case t of [] \<Rightarrow> [] | c # r \<Rightarrow> if c = CHR ''+'' \<or> c = CHR ''-'' then r else t) in
      take 8 u = ''Infinity'' \<or>
      (case u of
         [] \<Rightarrow> False
       | c # r \<Rightarrow>
           isDecimalDigit c \<or>
           (c = CHR ''.'' \<and> (case r of [] \<Rightarrow> False | d # _ \<Rightarrow> isDecimalDigit d))))"

text \<open>
  A signed decimal literal, by its parts: a sign, the digits before the dot, the digits after
  the dot when there is a dot, and the exponent when there is one (its letter, its sign and
  its digits). It is \<open>wellFormed\<close> when the parts are digits, there is a digit before the
  dot or after it, and a literal without a dot has digits; an exponent has a digit.
  \<open>literalText\<close> is the literal as written and \<open>literalNumber\<close> the Number that JavaScript
  gives it.
\<close>

datatype sign = NoSign | Plus | Minus

definition signText :: "sign \<Rightarrow> string" where
  "signText s = (case s of NoSign \<Rightarrow> [] | Plus \<Rightarrow> ''+'' | Minus \<Rightarrow> ''-'')"

record decimal_literal =
  dl_sign :: sign
  dl_int :: string
  dl_frac :: "string option"
  dl_exp :: "(char \<times> sign \<times> string) option"

definition wellFormed :: "decimal_literal \<Rightarrow> bool" where
  "wellFormed lit =
     (list_all isDecimalDigit (dl_int lit) \<and>
      (case dl_frac lit of
         None \<Rightarrow> dl_int lit \<noteq> []
       | Some fp \<Rightarrow> list_all isDecimalDigit fp \<and> (dl_int lit \<noteq> [] \<or> fp \<noteq> [])) \<and>
      (case dl_exp lit of
         None \<Rightarrow> True
       | Some (c, s, ds) \<Rightarrow> (c = CHR ''e'' \<or> c = CHR ''E'') \<and> ds \<noteq> [] \<and> list_all isDecimalDigit ds))"

definition fracText :: "string option \<Rightarrow> string" where
  "fracText fr = (case fr of None \<Rightarrow> [] | Some fp \<Rightarrow> CHR ''.'' # fp)"

definition fracDigits :: "string option \<Rightarrow> string" where
  "fracDigits fr = (case fr of None \<Rightarrow> [] | Some fp \<Rightarrow> fp)"

definition expText :: "(char \<times> sign \<times> string) option \<Rightarrow> string" where
  "expText ex = (case ex of None \<Rightarrow> [] | Some (c, s, ds) \<Rightarrow> c # signText s @ ds)"

definition expValue :: "(char \<times> sign \<times> string) option \<Rightarrow> int" where
  "expValue ex =
     (case ex of
        None \<Rightarrow> 0
      | Some (c, s, ds) \<Rightarrow> if s = Minus then - int (digitsValue ds) else int (digitsValue ds))"

definition literalText :: "decimal_literal \<Rightarrow> string" where
  "literalText lit =
     signText (dl_sign lit) @ dl_int lit @ fracText (dl_frac lit) @ expText (dl_exp lit)"

definition literalNumber :: "decimal_literal \<Rightarrow> js_number" where
  "literalNumber lit =
     Decimal (dl_sign lit = Minus)
       (digitsValue (dl_int lit @ fracDigits (dl_frac lit)))
       (expValue (dl_exp lit) - int (length (fracDigits (dl_frac lit))))"

text \<open>
  \<open>decimalValue\<close>: the value that a \<open>Decimal\<close> stands for, before it is rounded to a
  double.
\<close>

definition decimalValue :: "js_number \<Rightarrow> real option" where
  "decimalValue x =
     (case x of
        Decimal neg m e \<Rightarrow>
          Some ((if neg then - 1 else 1) * real m *
                (if 0 \<le> e then 10 ^ nat e else 1 / 10 ^ nat (- e)))
      | _ \<Rightarrow> None)"

text \<open>
  A text \<open>startsExponent\<close> when it begins with an exponent: \<open>e\<close> or \<open>E\<close>, an optional sign
  and a digit. The text after a literal \<open>endsLiteral\<close> when it does not continue the
  literal: it does not begin with a digit, nor with an exponent if the literal has none, nor
  with a dot if the literal has neither a dot nor an exponent.
\<close>

definition startsExponent :: "string \<Rightarrow> bool" where
  "startsExponent t =
     (case t of
        [] \<Rightarrow> False
      | c # u \<Rightarrow>
          (c = CHR ''e'' \<or> c = CHR ''E'') \<and>
          (case u of
             [] \<Rightarrow> False
           | s # v \<Rightarrow>
               isDecimalDigit s \<or>
               ((s = CHR ''+'' \<or> s = CHR ''-'') \<and>
                (case v of [] \<Rightarrow> False | d # _ \<Rightarrow> isDecimalDigit d))))"

definition startsWith :: "(char \<Rightarrow> bool) \<Rightarrow> string \<Rightarrow> bool" where
  "startsWith P t = (case t of [] \<Rightarrow> False | c # _ \<Rightarrow> P c)"

definition endsLiteral :: "decimal_literal \<Rightarrow> string \<Rightarrow> bool" where
  "endsLiteral lit rest =
     (\<not> startsWith isDecimalDigit rest \<and>
      (dl_exp lit = None \<longrightarrow> \<not> startsExponent rest) \<and>
      (dl_frac lit = None \<and> dl_exp lit = None \<longrightarrow> \<not> startsWith (\<lambda>c. c = CHR ''.'') rest))"

subsection \<open>Pages and selections\<close>

text \<open>
  A key is \<open>plainKey\<close> when a \<open>stations\<close> object has it only as a property of its own: it
  is none of the names that objects inherit from \<open>Object.prototype\<close>, and neither
  \<open>description\<close> nor \<open>audioUrl\<close>, which a \<open>stations\<close> object inherits once a date row
  with the id \<open>__proto__\<close> has replaced its prototype by an entry.
\<close>

definition plainKey :: "string \<Rightarrow> bool" where
  "plainKey key = (key \<notin> set objectPrototypeNames \<and> key \<noteq> ''description'' \<and> key \<noteq> ''audioUrl'')"

text \<open>
  \<open>hasEntry content station\<close>: the date's station mapping has an entry of its own under the
  station's \<open>id\<close>. \<open>hasData content station\<close> is the test that the script makes:
  \<open>content.stations[station.id]\<close> is truthy.
\<close>

definition hasEntry :: "date_content \<Rightarrow> station \<Rightarrow> bool" where
  "hasEntry content = (\<lambda>station. so_own (dc_stations content) (ToString (st_id station)) \<noteq> None)"

definition hasData :: "date_content \<Rightarrow> station \<Rightarrow> bool" where
  "hasData content =
     (\<lambda>station. truthy (stationsGet (dc_stations content) (ToString (st_id station))))"

text \<open>
  A page is \<open>pageReady\<close> when the document has the station list and the current-station
  element and every roster station carries its marker, as is the case from
  \<open>initializeApplication\<close> on (\<open>initializeApplication_ready\<close>, \<open>run_keeps_ready\<close>). It has
  \<open>plainIds\<close> when the keys of the roster stations and the selected id, if there is one, are
  plain keys.
\<close>

definition pageReady :: "page \<Rightarrow> bool" where
  "pageReady p =
     (stationList p \<noteq> None \<and> currentStationEl p \<noteq> None \<and>
      list_all (\<lambda>s. st_marker s \<noteq> None) (stations p))"

definition plainRoster :: "station list \<Rightarrow> bool" where
  "plainRoster sts = list_all (\<lambda>station. plainKey (ToString (st_id station))) sts"

definition plainIds :: "page \<Rightarrow> bool" where
  "plainIds p =
     (plainRoster (stations p) \<and>
      (case currentlySelectedId p of None \<Rightarrow> True | Some i \<Rightarrow> plainKey i))"

text \<open>
  \<open>selectionHasEntry\<close>: a selected station id has an entry under the selected date.
  \<open>selectionValid\<close> is weaker: it asks for the entry only when the selected date is known
  and some roster station has an entry under it.
\<close>

definition selectionHasEntry :: "page \<Rightarrow> bool" where
  "selectionHasEntry p =
     (case currentlySelectedId p of
        None \<Rightarrow> True
      | Some i \<Rightarrow>
          (case dateContent p (selectDate p) of
             None \<Rightarrow> False
           | Some content \<Rightarrow> so_own (dc_stations content) i \<noteq> None))"

definition selectionValid :: "page \<Rightarrow> bool" where
  "selectionValid p =
     (case currentlySelectedId p of
        None \<Rightarrow> True
      | Some i \<Rightarrow>
          (case dateContent p (selectDate p) of
             None \<Rightarrow> True
           | Some content \<Rightarrow>
               so_own (dc_stations content) i \<noteq> None \<or>
               \<not> list_ex (hasEntry content) (stations p)))"

text \<open>The page after \<open>changePanelContent\<close> has rendered a date and before it selects.\<close>

definition rerendered ::
  "page \<Rightarrow> date_content \<Rightarrow> station list \<Rightarrow> station_item list \<Rightarrow> diagnostic list \<Rightarrow> page" where
  "rerendered p content sts items lines =
     p\<lparr>infoSection :=
         map_option (\<lambda>_. ''Events of '' @ replaceFirst ''Feb'' ''February '' (selectDate p))
           (infoSection p),
       contextTitle := map_option (\<lambda>_. dc_title content) (contextTitle p),
       contextText := map_option (\<lambda>_. dc_context content) (contextText p),
       stations := sts,
       stationList := Some items,
       console := console p @ [LogLoadingContent (selectDate p)] @ lines @
          [LogStationsFound (length items) (selectDate p)]\<rparr>"

text \<open>The page that \<open>selectStation\<close> leaves when it selects, before the promise settles.\<close>

definition selectedPage ::
  "page \<Rightarrow> js_text \<Rightarrow> station \<Rightarrow> current_station \<Rightarrow> date_entry js_value \<Rightarrow> page" where
  "selectedPage p sid station el dynamicData =
     p\<lparr>console := console p @ [LogLoadingStation sid (audioUrlOf dynamicData)],
       stationList :=
         map_option (map (\<lambda>item. item\<lparr>it_active := (Some (it_station item) = sid)\<rparr>))
           (stationList p),
       currentStationEl :=
         Some (el\<lparr>cs_id := Some (ToString sid), cs_text := textContentOf (st_name station)\<rparr>),
       stationDescriptionEl := textContentOf (descriptionOf dynamicData),
       audio_src := Some (ToString (audioUrlOf dynamicData)),
       audio_loop := True,
       progress := \<lparr>pr_barWidth = ''0%'', pr_handleLeft = ''0px'',
                     pr_currentTime = ''0:00'', pr_duration = ''0:00''\<rparr>,
       audio_currentTime := 0,
       mapView := (st_lat station, st_lng station, 12),
       openPopup := Some sid\<rparr>"

subsection \<open>Example pages\<close>

text \<open>
  A document with every element present, and five tables: a roster of two stations,
  \<open>s1\<close> and \<open>s2\<close>; both have content on \<open>Feb22\<close>, only \<open>s2\<close> on \<open>Feb23\<close>, neither on
  \<open>Feb24\<close>, only \<open>s1\<close> on \<open>Feb25\<close>. \<open>demoLoaded\<close> is the page after the transformer,
  \<open>demoReady\<close> the page after \<open>loadAllTabs\<close>, \<open>demoAfter evs\<close> the page after the user
  actions \<open>evs\<close> on \<open>demoReady\<close>, and \<open>demoContent d\<close> the content of date \<open>d\<close>.
\<close>

definition demoDocument :: page where
  "demoDocument =
     \<lparr>stations = [], dateContent = Map.empty, selectDate = [],
      infoSection = Some [], contextTitle = Some [], contextText = Some [],
      stationList = Some [], currentStationEl = Some \<lparr>cs_id = None, cs_text = []\<rparr>,
      stationDescriptionEl = [], audio_src = None, audio_loop = False, audio_currentTime = 0,
      audio_volume = 1,
      progress = \<lparr>pr_barWidth = ''0%'', pr_handleLeft = ''0px'', pr_currentTime = ''0:00'',
                  pr_duration = ''0:00''\<rparr>,
      playBtn = ''Play'', isPlaying = False, window_isPlaying = False, isMuted = False,
      lastVolume = 1, volumeSlider = 1, volumeBtn = HighIcon, volumePanelShown = False,
      volumePanelTimeout = False,
      mapView = (Decimal False 145995 (- 4), Decimal False 1209842 (- 4), 10),
      openPopup = None, console = []\<rparr>"

definition demoSheets :: "string \<rightharpoonup> js_record list" where
  "demoSheets =
     [''Master'' \<mapsto>
        [[''id'' \<mapsto> ''s1'', ''name'' \<mapsto> ''A'', ''lat'' \<mapsto> ''14.5'', ''lng'' \<mapsto> ''120.9'',
          ''description'' \<mapsto> ''first'', ''icon'' \<mapsto> ''a.png''],
         [''id'' \<mapsto> ''s2'', ''name'' \<mapsto> ''B'', ''lat'' \<mapsto> ''14.6'', ''lng'' \<mapsto> ''121.0'',
          ''description'' \<mapsto> ''second'', ''icon'' \<mapsto> ''b.png'']],
      ''Feb22'' \<mapsto>
        [[''id'' \<mapsto> ''s1'', ''description'' \<mapsto> ''d1'', ''audioUrl'' \<mapsto> ''a1.mp3''],
         [''id'' \<mapsto> ''s2'', ''description'' \<mapsto> ''d2'', ''audioUrl'' \<mapsto> ''a2.mp3'']],
      ''Feb23'' \<mapsto>
        [[''id'' \<mapsto> ''s2'', ''description'' \<mapsto> ''e2'', ''audioUrl'' \<mapsto> ''b2.mp3'']],
      ''Feb24'' \<mapsto> [],
      ''Feb25'' \<mapsto>
        [[''id'' \<mapsto> ''s1'', ''description'' \<mapsto> ''f1'', ''audioUrl'' \<mapsto> ''c1.mp3'']]]"

definition demoLoaded :: page where
  "demoLoaded =
     (case transformSheetData demoSheets of
        Inr (sts, content) \<Rightarrow> demoDocument\<lparr>stations := sts, dateContent := content\<rparr>
      | Inl f \<Rightarrow> demoDocument)"

definition demoReady :: page where
  "demoReady = (case loadAllTabs Fulfilled demoSheets demoDocument of Inr p \<Rightarrow> p | Inl f \<Rightarrow> demoDocument)"

definition demoContent :: "string \<Rightarrow> date_content" where
  "demoContent d =
     (case dateContent demoReady d of
        Some content \<Rightarrow> content
      | None \<Rightarrow> \<lparr>dc_title = [], dc_context = [], dc_stations = emptyStations\<rparr>)"

definition demoAfter :: "(event \<times> play_result) list \<Rightarrow> page" where
  "demoAfter evs = (case run evs demoReady of Inr p \<Rightarrow> p | Inl f \<Rightarrow> demoReady)"

text \<open>
  A second set of tables: the roster has the stations \<open>s1\<close> and \<open>toString\<close>, and only
  \<open>s1\<close> has a row, under \<open>Feb22\<close>. \<open>oddReady\<close> is the page after \<open>loadAllTabs\<close>,
  \<open>oddSelected\<close> the page after a selection of \<open>toString\<close> on it, \<open>oddAfter evs\<close> the
  page after the user actions \<open>evs\<close> on \<open>oddReady\<close>, and \<open>oddContent d\<close> the content of
  date \<open>d\<close>.
\<close>

definition oddSheets :: "string \<rightharpoonup> js_record list" where
  "oddSheets =
     [''Master'' \<mapsto>
        [[''id'' \<mapsto> ''s1'', ''name'' \<mapsto> ''A'', ''lat'' \<mapsto> ''14.5'', ''lng'' \<mapsto> ''120.9'',
          ''description'' \<mapsto> ''first'', ''icon'' \<mapsto> ''a.png''],
         [''id'' \<mapsto> ''toString'', ''name'' \<mapsto> ''B'', ''lat'' \<mapsto> ''14.6'', ''lng'' \<mapsto> ''121.0'',
          ''description'' \<mapsto> ''second'', ''icon'' \<mapsto> ''b.png'']],
      ''Feb22'' \<mapsto>
        [[''id'' \<mapsto> ''s1'', ''description'' \<mapsto> ''d1'', ''audioUrl'' \<mapsto> ''a1.mp3'']],
      ''Feb23'' \<mapsto> [],
      ''Feb24'' \<mapsto> [],
      ''Feb25'' \<mapsto> []]"

definition oddReady :: page where
  "oddReady = (case loadAllTabs Fulfilled oddSheets demoDocument of Inr p \<Rightarrow> p | Inl f \<Rightarrow> demoDocument)"

definition oddSelected :: page where
  "oddSelected =
     (case selectStation Fulfilled (Some ''toString'') oddReady of Inr p \<Rightarrow> p | Inl f \<Rightarrow> oddReady)"

definition oddContent :: "string \<Rightarrow> date_content" where
  "oddContent d =
     (case dateContent oddReady d of
        Some content \<Rightarrow> content
      | None \<Rightarrow> \<lparr>dc_title = [], dc_context = [], dc_stations = emptyStations\<rparr>)"

definition oddAfter :: "(event \<times> play_result) list \<Rightarrow> page" where
  "oddAfter evs = (case run evs oddReady of Inr p \<Rightarrow> p | Inl f \<Rightarrow> oddReady)"

section \<open>Properties of the tabular parser\<close>

subsection \<open>The row parser on written rows\<close>








subsection \<open>The record of a row\<close>

lemma assignUpto_Suc:
  "assignUpto names row (Suc n) =
   setField (assignUpto names row n) (propertyKey names n) (row ! n)"
  by (simp add: assignUpto_def)

lemma assignUpto_0: "assignUpto names row 0 = Map.empty"
  by (simp add: assignUpto_def)

lemma assignUpto_proto: "assignUpto names row n ''__proto__'' = None"
  by (induction n) (simp_all add: assignUpto_Suc assignUpto_0 setField_def)

lemma assignUpto_None:
  "\<forall>j<n. propertyKey names j \<noteq> k \<Longrightarrow> assignUpto names row n k = None"
  by (induction n) (auto simp: assignUpto_Suc assignUpto_0 setField_def)

lemma assignUpto_last:
  "j < n \<Longrightarrow> propertyKey names j \<noteq> ''__proto__'' \<Longrightarrow>
   (\<forall>i. j < i \<and> i < n \<longrightarrow> propertyKey names i \<noteq> propertyKey names j) \<Longrightarrow>
   assignUpto names row n (propertyKey names j) = Some (row ! j)"
proof (induction n)
  case 0
  then show ?case by simp
next
  case (Suc n)
  show ?case
  proof (cases "j = n")
    case True
    with Suc.prems(2) show ?thesis by (simp add: assignUpto_Suc setField_def)
  next
    case False
    with Suc.prems have less: "j < n" by simp
    from Suc.prems(3) less have ne: "propertyKey names n \<noteq> propertyKey names j" by blast
    from Suc.prems(3) have "\<forall>i. j < i \<and> i < n \<longrightarrow> propertyKey names i \<noteq> propertyKey names j"
      by (meson less_Suc_eq)
    with Suc.IH less Suc.prems(2)
    have "assignUpto names row n (propertyKey names j) = Some (row ! j)"
      by blast
    with ne show ?thesis by (simp add: assignUpto_Suc setField_def)
  qed
qed

lemma rowObject_assignUpto: "rowObject names row = assignUpto names row (length row)"
  by (simp add: rowObject_def assignUpto_def)

lemma propertyKey_inside: "j < length names \<Longrightarrow> propertyKey names j = names ! j"
  by (simp add: propertyKey_def ToString_def)

lemma rowObject_absent:
  assumes "length row \<le> j" "j < length names" "names ! j \<notin> set (take (length row) names)"
  shows "rowObject names row (names ! j) = None"
proof -
  have "propertyKey names i \<noteq> names ! j" if "i < length row" for i
  proof -
    from that assms have "i < length names" by simp
    then have "propertyKey names i = take (length row) names ! i"
      using that by (simp add: propertyKey_inside)
    moreover have "take (length row) names ! i \<in> set (take (length row) names)"
      using that \<open>i < length names\<close> by (intro nth_mem) simp
    ultimately show ?thesis using assms(3) by metis
  qed
  then show ?thesis by (simp add: rowObject_assignUpto assignUpto_None)
qed

subsection \<open>Tables\<close>

lemma split_lines_nonempty: "split_lines t \<noteq> []"
  by (induction t) (auto split: list.splits)

lemma split_lines_trailing: "split_lines (t @ [CHR 0x0A]) = split_lines t @ [[]]"
  by (induction t) (auto split: list.splits simp: split_lines_nonempty)

lemma csvSplit_loop_nonempty: "csvSplit_loop row res q cur \<noteq> []"
  by (induction row res q cur rule: csvSplit_loop.induct) auto

lemma csvSplit_nonempty: "csvSplit row \<noteq> []"
  by (simp add: csvSplit_def csvSplit_loop_nonempty)

lemma csvSplit_empty: "csvSplit [] = [[]]"
  by (simp add: csvSplit_def)

lemma rowObject_empty_row:
  "names \<noteq> [] \<Longrightarrow>
   rowObject names [[]] = (if hd names = ''__proto__'' then Map.empty else [hd names \<mapsto> []])"
  by (cases names) (simp_all add: rowObject_def propertyKey_def ToString_def setField_def)

lemma csvToObjects_trailing:
  "csvToObjects (t @ [CHR 0x0A]) =
   csvToObjects t @
     [if hd (csvSplit (hd (split_lines t))) = ''__proto__'' then Map.empty
      else [hd (csvSplit (hd (split_lines t))) \<mapsto> []]]"
  using split_lines_nonempty[of t]
  by (cases "split_lines t")
     (simp_all add: csvToObjects_def split_lines_trailing Let_def csvSplit_empty
        rowObject_empty_row csvSplit_nonempty)

lemma csvToObjects_nth:
  "i < length (csvToObjects csv) \<Longrightarrow>
   csvToObjects csv ! i =
     rowObject (csvSplit (hd (split_lines csv))) (csvSplit (tl (split_lines csv) ! i))"
  by (simp add: csvToObjects_def Let_def)

text \<open>
  C8, as the claim states it, fails. The table \<open>a,b\<close> / \<open>1,2\<close> with a trailing line feed
  has a last record that binds \<open>a\<close> to the empty text: the empty last row parses to one
  empty field, not to none. And under the header \<open>a,b,a\<close> the short row \<open>1,2\<close> gives a
  record in which the trailing header name \<open>a\<close> is bound (to the first column's value).
\<close>

theorem csvToObjects_trailing_row_counterexample:
  "last (csvToObjects ''a,b\<newline>1,2\<newline>'') ''a'' = Some [] \<and>
   (csvToObjects ''a,b,a\<newline>1,2'' ! 0) ''a'' = Some ''1''"
  by (simp add: csvToObjects_def csvSplit_def rowObject_def propertyKey_def ToString_def
      setField_def)

text \<open>
  C8, amended. A field of a record is an own property of it. In the record of a data row
  shorter than the header, every trailing header name that does not also name one of the
  row's columns is absent. A table text that ends in a line feed, under a header whose first
  name is not \<open>__proto__\<close>, yields the records of the text without it, followed by one
  more record for the empty last row: that record binds the first header name to the empty
  text and nothing else.
\<close>

theorem csvToObjects_short_and_trailing_rows:
  "(\<forall>i j. i < length (csvToObjects csv) \<and>
      length (csvSplit (tl (split_lines csv) ! i)) \<le> j \<and>
      j < length (csvSplit (hd (split_lines csv))) \<and>
      csvSplit (hd (split_lines csv)) ! j \<notin>
        set (take (length (csvSplit (tl (split_lines csv) ! i))) (csvSplit (hd (split_lines csv))))
      \<longrightarrow> (csvToObjects csv ! i) (csvSplit (hd (split_lines csv)) ! j) = None) \<and>
   (hd (csvSplit (hd (split_lines csv))) \<noteq> ''__proto__'' \<longrightarrow>
      csvToObjects (csv @ [CHR 0x0A]) =
        csvToObjects csv @ [[hd (csvSplit (hd (split_lines csv))) \<mapsto> []]])"
  by (simp add: csvToObjects_nth rowObject_absent csvToObjects_trailing)

text \<open>
  C8, amended, on the table \<open>a,b\<close> / \<open>1\<close>: the short row has no field \<open>b\<close>, and with a
  trailing line feed there is one more record, which binds \<open>a\<close> to the empty text.
\<close>

theorem csvToObjects_short_and_trailing_rows_witness:
  "(csvToObjects ''a,b\<newline>1'' ! 0) ''b'' = None \<and>
   csvToObjects ''a,b\<newline>1\<newline>'' = csvToObjects ''a,b\<newline>1'' @ [[''a'' \<mapsto> []]]"
proof -
  let ?csv = "''a,b\<newline>1''"
  have lines: "split_lines ?csv = [''a,b'', ''1'']" by simp
  have names: "csvSplit (hd (split_lines ?csv)) = [''a'', ''b'']"
    by (simp add: csvSplit_def)
  have row: "csvSplit (tl (split_lines ?csv) ! 0) = [''1'']"
    by (simp add: csvSplit_def)
  have len: "0 < length (csvToObjects ?csv)"
    by (simp add: csvToObjects_def)
  have first: "hd (csvSplit (hd (split_lines ?csv))) \<noteq> ''__proto__''"
    unfolding names by simp
  note inst = csvToObjects_short_and_trailing_rows[of ?csv]
  from inst[THEN conjunct1, rule_format, of 0 1] len
  have "(csvToObjects ?csv ! 0) ''b'' = None"
    unfolding names row by simp
  moreover from inst[THEN conjunct2, rule_format, OF first]
  have "csvToObjects (?csv @ [CHR 0x0A]) = csvToObjects ?csv @ [[''a'' \<mapsto> []]]"
    unfolding names by simp
  ultimately show ?thesis by simp
qed

text \<open>
  In every record of a table, the key of a column of the row that is the last column with
  that key, and is not \<open>__proto__\<close>, is bound to that column's value; the values of earlier
  columns under the same key are overwritten. The key of a column inside the header is the
  header's name for it (\<open>propertyKey_inside\<close>). No record has a field \<open>__proto__\<close>.
\<close>

lemma csvToObjects_last_column_wins:
  assumes "i < length (csvToObjects csv)"
      and "propertyNames = csvSplit (hd (split_lines csv))"
      and "row = csvSplit (tl (split_lines csv) ! i)"
      and "j < length row"
      and "propertyKey propertyNames j \<noteq> ''__proto__''"
      and "\<forall>k. j < k \<and> k < length row \<longrightarrow>
             propertyKey propertyNames k \<noteq> propertyKey propertyNames j"
  shows "(csvToObjects csv ! i) (propertyKey propertyNames j) = Some (row ! j) \<and>
         (csvToObjects csv ! i) ''__proto__'' = None"
proof -
  from assms(1-3) have "csvToObjects csv ! i = assignUpto propertyNames row (length row)"
    by (simp only: csvToObjects_nth rowObject_assignUpto)
  with assignUpto_last[OF assms(4-6), of row] assignUpto_proto[of propertyNames row "length row"]
  show ?thesis by simp
qed

text \<open>
  C10 does not hold of a header that repeats the name \<open>__proto__\<close>. Under the header
  \<open>__proto__,id,__proto__\<close> the row \<open>x,s1,y\<close> gives a record without a field
  \<open>__proto__\<close>: the assignment \<open>thisObject['__proto__'] = 'y'\<close> reaches the setter that
  every object inherits, which ignores a text, so neither the value of the last column of
  that name nor any other is bound to it. The other columns are bound as usual.
\<close>

theorem csvToObjects_proto_column_unbound:
  "(csvToObjects ''__proto__,id,__proto__\<newline>x,s1,y'' ! 0) ''__proto__'' = None \<and>
   (csvToObjects ''__proto__,id,__proto__\<newline>x,s1,y'' ! 0) ''id'' = Some ''s1'' \<and>
   (csvToObjects ''a,id,a\<newline>x,s1,y'' ! 0) ''a'' = Some ''y''"
  by (simp add: csvToObjects_def csvSplit_def rowObject_def propertyKey_def ToString_def
      setField_def)

section \<open>Properties of the data transformer\<close>

subsection \<open>Not-a-number\<close>

lemma strUnsignedDecimalLiteral_NaN:
  "(strUnsignedDecimalLiteral neg u = NaN) =
   (\<not> (take 8 u = ''Infinity'' \<or>
       (case u of
          [] \<Rightarrow> False
        | c # r \<Rightarrow>
            isDecimalDigit c \<or>
            (c = CHR ''.'' \<and> (case r of [] \<Rightarrow> False | d # _ \<Rightarrow> isDecimalDigit d)))))"
proof (cases "take 8 u = ''Infinity''")
  case True
  then show ?thesis by (simp add: strUnsignedDecimalLiteral_def)
next
  case False
  show ?thesis
  proof (cases u)
    case Nil
    then show ?thesis by (simp add: strUnsignedDecimalLiteral_def)
  next
    case (Cons c r)
    show ?thesis
    proof (cases "isDecimalDigit c")
      case True
      with False Cons show ?thesis
        by (auto simp: strUnsignedDecimalLiteral_def Let_def split: list.splits)
    next
      case notdigit: False
      with False Cons show ?thesis
        by (cases r) (auto simp: strUnsignedDecimalLiteral_def Let_def)
    qed
  qed
qed

lemma signed_literal_NaN:
  "((case t of
       [] \<Rightarrow> NaN
     | c # u \<Rightarrow>
         if c = CHR ''+'' then strUnsignedDecimalLiteral False u
         else if c = CHR ''-'' then strUnsignedDecimalLiteral True u
         else strUnsignedDecimalLiteral False t) = NaN) =
   (\<not> startsNumeric t)"
proof (cases t)
  case Nil
  then show ?thesis by (simp add: startsNumeric_def)
next
  case (Cons c u)
  then show ?thesis
    by (simp add: startsNumeric_def strUnsignedDecimalLiteral_NaN del: take_Suc_Cons)
qed

lemma parseFloat_NaN:
  "(parseFloat v = NaN) = (\<not> startsNumeric (dropWhile isStrWhiteSpaceChar (ToString v)))"
  unfolding parseFloat_def Let_def by (rule signed_literal_NaN)

subsection \<open>The number of a leading literal\<close>

lemma digit_not_special:
  "isDecimalDigit c \<Longrightarrow>
   \<not> isStrWhiteSpaceChar c \<and> c \<noteq> CHR ''+'' \<and> c \<noteq> CHR ''-'' \<and> c \<noteq> CHR ''.'' \<and> c \<noteq> CHR ''I'' \<and>
   c \<noteq> CHR ''e'' \<and> c \<noteq> CHR ''E''"
  by (auto simp: isDecimalDigit_def isStrWhiteSpaceChar_def)

lemma special_not_digit:
  "\<not> isDecimalDigit CHR ''.''" "\<not> isDecimalDigit CHR ''e''" "\<not> isDecimalDigit CHR ''E''"
  "\<not> isDecimalDigit CHR ''+''" "\<not> isDecimalDigit CHR ''-''"
  by (simp_all add: isDecimalDigit_def)

lemma takeWhile_digits:
  "list_all isDecimalDigit ds \<Longrightarrow> \<not> startsWith isDecimalDigit rest \<Longrightarrow>
   takeWhile isDecimalDigit (ds @ rest) = ds \<and> dropWhile isDecimalDigit (ds @ rest) = rest"
  by (induction ds) (auto simp: startsWith_def split: list.splits)

lemma exponentPart_none:
  "\<not> startsExponent rest \<Longrightarrow> exponentPart rest = 0"
  by (auto simp: startsExponent_def exponentPart_def digitsValue_def takeWhile_eq_Nil_iff
      split: list.splits)

lemma exponentPart_some:
  assumes "c = CHR ''e'' \<or> c = CHR ''E''" "ds \<noteq> []" "list_all isDecimalDigit ds"
      and "\<not> startsWith isDecimalDigit rest"
  shows "exponentPart (c # signText s @ ds @ rest) =
         (if s = Minus then - int (digitsValue ds) else int (digitsValue ds))"
proof -
  from assms(2,3) obtain d ds' where d: "ds = d # ds'" "isDecimalDigit d" by (cases ds) auto
  note tw = takeWhile_digits[OF assms(3,4), THEN conjunct1]
  show ?thesis
  proof (cases s)
    case NoSign
    with assms(1) d digit_not_special[OF d(2)] tw show ?thesis
      by (auto simp: exponentPart_def signText_def)
  next
    case Plus
    with assms(1,2) tw show ?thesis
      by (auto simp: exponentPart_def signText_def)
  next
    case Minus
    with assms(1,2) tw show ?thesis
      by (auto simp: exponentPart_def signText_def)
  qed
qed

lemma exponentPart_expText:
  assumes "wellFormed lit" "endsLiteral lit rest"
  shows "exponentPart (expText (dl_exp lit) @ rest) = expValue (dl_exp lit)"
proof (cases "dl_exp lit")
  case None
  with assms(2) show ?thesis
    by (simp add: expText_def expValue_def endsLiteral_def exponentPart_none)
next
  case (Some ex)
  obtain c s ds where ex: "ex = (c, s, ds)" by (cases ex)
  from assms(1) Some ex have wf: "c = CHR ''e'' \<or> c = CHR ''E''" "ds \<noteq> []" "list_all isDecimalDigit ds"
    by (simp_all add: wellFormed_def)
  from assms(2) have "\<not> startsWith isDecimalDigit rest" by (simp add: endsLiteral_def)
  from exponentPart_some[OF wf this, of s] Some ex show ?thesis
    by (simp add: expText_def expValue_def)
qed

lemma not_Infinity:
  "t = c # u \<Longrightarrow> isDecimalDigit c \<or> c = CHR ''.'' \<Longrightarrow> take 8 t \<noteq> ''Infinity''"
  by (auto dest: digit_not_special)

lemma unsigned_integer:
  assumes ip: "ip \<noteq> []" "list_all isDecimalDigit ip"
      and x: "\<not> startsWith isDecimalDigit x" "\<not> startsWith (\<lambda>c. c = CHR ''.'') x"
  shows "strUnsignedDecimalLiteral neg (ip @ x) = Decimal neg (digitsValue ip) (exponentPart x)"
proof -
  from ip obtain c cs where c: "ip = c # cs" "isDecimalDigit c" by (cases ip) auto
  then have inf: "take 8 (ip @ x) \<noteq> ''Infinity''"
    by (intro not_Infinity[of _ c "cs @ x"]) simp_all
  from takeWhile_digits[OF ip(2) x(1)]
  have tw: "takeWhile isDecimalDigit (ip @ x) = ip" "dropWhile isDecimalDigit (ip @ x) = x"
    by simp_all
  show ?thesis
  proof (cases x)
    case Nil
    have "exponentPart [] = 0" by (simp add: exponentPart_def)
    with inf ip(1) show ?thesis
      unfolding strUnsignedDecimalLiteral_def Let_def tw by (simp add: Nil)
  next
    case (Cons d r)
    with x(2) have "d \<noteq> CHR ''.''" by (simp add: startsWith_def)
    with inf ip(1) tw Cons show ?thesis
      unfolding strUnsignedDecimalLiteral_def Let_def tw by simp
  qed
qed

lemma unsigned_fraction:
  assumes ip: "list_all isDecimalDigit ip" and fp: "list_all isDecimalDigit fp"
      and some: "ip \<noteq> [] \<or> fp \<noteq> []"
      and x: "\<not> startsWith isDecimalDigit x"
  shows "strUnsignedDecimalLiteral neg (ip @ CHR ''.'' # fp @ x) =
         Decimal neg (digitsValue (ip @ fp)) (exponentPart x - int (length fp))"
proof -
  have inf: "take 8 (ip @ CHR ''.'' # fp @ x) \<noteq> ''Infinity''"
  proof (cases ip)
    case Nil
    then show ?thesis by simp
  next
    case (Cons c cs)
    with ip have "isDecimalDigit c" by simp
    with Cons show ?thesis by (intro not_Infinity[of _ c "cs @ CHR ''.'' # fp @ x"]) simp_all
  qed
  have "\<not> startsWith isDecimalDigit (CHR ''.'' # fp @ x)"
    by (simp add: startsWith_def special_not_digit)
  from takeWhile_digits[OF ip this]
  have tw: "takeWhile isDecimalDigit (ip @ CHR ''.'' # fp @ x) = ip"
    "dropWhile isDecimalDigit (ip @ CHR ''.'' # fp @ x) = CHR ''.'' # fp @ x"
    by simp_all
  from takeWhile_digits[OF fp x]
  have tw': "takeWhile isDecimalDigit (fp @ x) = fp" "dropWhile isDecimalDigit (fp @ x) = x"
    by simp_all
  from inf some show ?thesis
    unfolding strUnsignedDecimalLiteral_def Let_def tw
    by (simp add: tw')
qed

lemma expText_rest:
  assumes "wellFormed lit" "endsLiteral lit rest"
  shows "\<not> startsWith isDecimalDigit (expText (dl_exp lit) @ rest)"
    and "dl_frac lit = None \<Longrightarrow> \<not> startsWith (\<lambda>c. c = CHR ''.'') (expText (dl_exp lit) @ rest)"
proof -
  show "\<not> startsWith isDecimalDigit (expText (dl_exp lit) @ rest)"
  proof (cases "dl_exp lit")
    case None
    with assms(2) show ?thesis by (simp add: expText_def endsLiteral_def)
  next
    case (Some ex)
    with assms(1) show ?thesis
      by (cases ex) (auto simp: expText_def wellFormed_def startsWith_def special_not_digit)
  qed
  show "\<not> startsWith (\<lambda>c. c = CHR ''.'') (expText (dl_exp lit) @ rest)" if "dl_frac lit = None"
  proof (cases "dl_exp lit")
    case None
    with assms(2) that show ?thesis by (simp add: expText_def endsLiteral_def)
  next
    case (Some ex)
    with assms(1) show ?thesis
      by (cases ex) (auto simp: expText_def wellFormed_def startsWith_def)
  qed
qed

lemma unsigned_literal:
  assumes wf: "wellFormed lit" and fin: "endsLiteral lit rest"
  shows "strUnsignedDecimalLiteral neg
           (dl_int lit @ fracText (dl_frac lit) @ expText (dl_exp lit) @ rest) =
         Decimal neg (digitsValue (dl_int lit @ fracDigits (dl_frac lit)))
           (expValue (dl_exp lit) - int (length (fracDigits (dl_frac lit))))"
proof -
  from wf have ip: "list_all isDecimalDigit (dl_int lit)" by (simp add: wellFormed_def)
  note ev = exponentPart_expText[OF wf fin]
  note x = expText_rest[OF wf fin]
  show ?thesis
  proof (cases "dl_frac lit")
    case None
    with wf have nonempty: "dl_int lit \<noteq> []" by (simp add: wellFormed_def)
    from unsigned_integer[OF nonempty ip x(1) x(2)[OF None], of neg] ev None
    show ?thesis by (simp add: fracText_def fracDigits_def)
  next
    case (Some fp)
    with wf have fp: "list_all isDecimalDigit fp" and some: "dl_int lit \<noteq> [] \<or> fp \<noteq> []"
      by (simp_all add: wellFormed_def)
    from unsigned_fraction[OF ip fp some x(1), of neg] ev Some
    show ?thesis by (simp add: fracText_def fracDigits_def)
  qed
qed

lemma dropWhile_ws:
  "list_all isStrWhiteSpaceChar w \<Longrightarrow> \<not> startsWith isStrWhiteSpaceChar t \<Longrightarrow>
   dropWhile isStrWhiteSpaceChar (w @ t) = t"
  by (induction w) (auto simp: startsWith_def split: list.splits)

lemma signed_text:
  assumes "t = c # u" "isDecimalDigit c \<or> c = CHR ''.''"
  shows "(case signText s @ t of
            [] \<Rightarrow> NaN
          | c # u \<Rightarrow>
              if c = CHR ''+'' then strUnsignedDecimalLiteral False u
              else if c = CHR ''-'' then strUnsignedDecimalLiteral True u
              else strUnsignedDecimalLiteral False (signText s @ t)) =
         strUnsignedDecimalLiteral (s = Minus) t"
proof -
  from assms(2) have "c \<noteq> CHR ''+''" "c \<noteq> CHR ''-''"
    using digit_not_special[of c] by auto
  with assms(1) show ?thesis by (cases s) (simp_all add: signText_def)
qed

lemma literal_head:
  assumes "wellFormed lit"
  shows "\<exists>c u. dl_int lit @ fracText (dl_frac lit) @ x = c # u \<and>
               (isDecimalDigit c \<or> c = CHR ''.'')"
proof (cases "dl_int lit")
  case Nil
  with assms obtain fp where "dl_frac lit = Some fp"
    by (cases "dl_frac lit") (simp_all add: wellFormed_def)
  with Nil show ?thesis by (simp add: fracText_def)
next
  case (Cons c cs)
  with assms have "isDecimalDigit c" by (simp add: wellFormed_def)
  with Cons show ?thesis by simp
qed

lemma parseFloat_literal:
  assumes ws: "list_all isStrWhiteSpaceChar w" and wf: "wellFormed lit"
      and fin: "endsLiteral lit rest"
  shows "parseFloat (Some (w @ literalText lit @ rest)) = literalNumber lit"
proof -
  define body where "body = dl_int lit @ fracText (dl_frac lit) @ expText (dl_exp lit) @ rest"
  from literal_head[OF wf, of "expText (dl_exp lit) @ rest"]
  obtain c u where body: "body = c # u" "isDecimalDigit c \<or> c = CHR ''.''"
    unfolding body_def by blast
  have c: "\<not> isStrWhiteSpaceChar c"
    using body(2) digit_not_special[of c] by (auto simp: isStrWhiteSpaceChar_def)
  have shape: "w @ literalText lit @ rest = w @ signText (dl_sign lit) @ body"
    by (simp add: literalText_def body_def)
  have "\<not> startsWith isStrWhiteSpaceChar (signText (dl_sign lit) @ body)"
    using c by (cases "dl_sign lit")
      (simp_all add: body(1) signText_def startsWith_def isStrWhiteSpaceChar_def)
  from dropWhile_ws[OF ws this]
  have trimmed: "dropWhile isStrWhiteSpaceChar (w @ signText (dl_sign lit) @ body) =
                 signText (dl_sign lit) @ body" .
  have "parseFloat (Some (w @ literalText lit @ rest)) =
        strUnsignedDecimalLiteral (dl_sign lit = Minus) body"
    unfolding parseFloat_def Let_def ToString_def option.case shape trimmed
    by (rule signed_text[OF body])
  also have "\<dots> = literalNumber lit"
    unfolding body_def literalNumber_def by (rule unsigned_literal[OF wf fin])
  finally show ?thesis .
qed

lemma parseFloat_Infinity:
  assumes ws: "list_all isStrWhiteSpaceChar w"
  shows "parseFloat (Some (w @ signText s @ ''Infinity'' @ rest)) = Infinity (s = Minus)"
proof -
  have "\<not> startsWith isStrWhiteSpaceChar (signText s @ ''Infinity'' @ rest)"
    by (cases s) (simp_all add: signText_def startsWith_def isStrWhiteSpaceChar_def)
  from dropWhile_ws[OF ws this]
  have trimmed: "dropWhile isStrWhiteSpaceChar (w @ signText s @ ''Infinity'' @ rest) =
                 signText s @ ''Infinity'' @ rest" .
  show ?thesis
    unfolding parseFloat_def Let_def ToString_def option.case trimmed
    by (cases s) (simp_all add: signText_def strUnsignedDecimalLiteral_def)
qed

subsection \<open>Every numeric text starts with a literal\<close>

lemma split_digits:
  "\<exists>ds rest. xs = ds @ rest \<and> list_all isDecimalDigit ds \<and> \<not> startsWith isDecimalDigit rest \<and>
             (startsWith isDecimalDigit xs \<longrightarrow> ds \<noteq> [])"
proof (induction xs)
  case Nil
  show ?case by (intro exI[of _ "[]"]) (simp add: startsWith_def)
next
  case (Cons x xs)
  then obtain ds rest where ds: "xs = ds @ rest" "list_all isDecimalDigit ds"
    "\<not> startsWith isDecimalDigit rest" by blast
  show ?case
  proof (cases "isDecimalDigit x")
    case True
    with ds show ?thesis by (intro exI[of _ "x # ds"] exI[of _ rest]) simp
  next
    case False
    then show ?thesis by (intro exI[of _ "[]"] exI[of _ "x # xs"]) (simp add: startsWith_def)
  qed
qed

lemma split_exponent:
  assumes "startsExponent t"
  shows "\<exists>c s ds rest. (c = CHR ''e'' \<or> c = CHR ''E'') \<and> ds \<noteq> [] \<and> list_all isDecimalDigit ds \<and>
           \<not> startsWith isDecimalDigit rest \<and> t = c # signText s @ ds @ rest"
proof -
  from assms obtain c u where t: "t = c # u" "c = CHR ''e'' \<or> c = CHR ''E''"
    by (cases t) (auto simp: startsExponent_def)
  from assms t obtain s0 v where u: "u = s0 # v"
    by (cases u) (auto simp: startsExponent_def)
  from assms t u have cases: "isDecimalDigit s0 \<or>
      ((s0 = CHR ''+'' \<or> s0 = CHR ''-'') \<and> startsWith isDecimalDigit v)"
    by (auto simp: startsExponent_def startsWith_def split: list.splits)
  show ?thesis
  proof (cases "isDecimalDigit s0")
    case True
    then have "startsWith isDecimalDigit u" by (simp add: u startsWith_def)
    with split_digits[of u] obtain ds rest where "u = ds @ rest" "list_all isDecimalDigit ds"
      "\<not> startsWith isDecimalDigit rest" "ds \<noteq> []" by blast
    with t show ?thesis
      by (intro exI[of _ c] exI[of _ NoSign] exI[of _ ds] exI[of _ rest]) (simp add: signText_def)
  next
    case False
    with cases have sign: "s0 = CHR ''+'' \<or> s0 = CHR ''-''" and v: "startsWith isDecimalDigit v"
      by simp_all
    from v split_digits[of v] obtain ds rest where ds: "v = ds @ rest" "list_all isDecimalDigit ds"
      "\<not> startsWith isDecimalDigit rest" "ds \<noteq> []" by blast
    from sign show ?thesis
    proof
      assume "s0 = CHR ''+''"
      with t u ds show ?thesis
        by (intro exI[of _ c] exI[of _ Plus] exI[of _ ds] exI[of _ rest]) (simp add: signText_def)
    next
      assume "s0 = CHR ''-''"
      with t u ds show ?thesis
        by (intro exI[of _ c] exI[of _ Minus] exI[of _ ds] exI[of _ rest]) (simp add: signText_def)
    qed
  qed
qed

text \<open>The exponent of a text, if it starts with one, and the text after it.\<close>

lemma split_optional_exponent:
  assumes "\<not> startsWith isDecimalDigit t"
  shows "\<exists>ex rest.
           (case ex of
              None \<Rightarrow> True
            | Some (c, s, ds) \<Rightarrow> (c = CHR ''e'' \<or> c = CHR ''E'') \<and> ds \<noteq> [] \<and> list_all isDecimalDigit ds) \<and>
           \<not> startsWith isDecimalDigit rest \<and> (ex = None \<longrightarrow> \<not> startsExponent rest \<and> rest = t) \<and>
           t = expText ex @ rest"
proof (cases "startsExponent t")
  case True
  from split_exponent[OF True] obtain c s ds rest where
    "(c = CHR ''e'' \<or> c = CHR ''E'') \<and> ds \<noteq> [] \<and> list_all isDecimalDigit ds"
    "\<not> startsWith isDecimalDigit rest" "t = c # signText s @ ds @ rest" by blast
  then show ?thesis
    by (intro exI[of _ "Some (c, s, ds)"] exI[of _ rest]) (simp add: expText_def)
next
  case False
  with assms show ?thesis
    by (intro exI[of _ None] exI[of _ t]) (simp add: expText_def)
qed

lemma unsigned_numeric_literal:
  assumes "u = c # r"
      and "isDecimalDigit c \<or> (c = CHR ''.'' \<and> startsWith isDecimalDigit r)"
  shows "\<exists>lit rest. dl_sign lit = s \<and> wellFormed lit \<and> endsLiteral lit rest \<and>
           u = dl_int lit @ fracText (dl_frac lit) @ expText (dl_exp lit) @ rest"
proof -
  from split_digits[of u] obtain ip r1 where ip: "u = ip @ r1" "list_all isDecimalDigit ip"
    "\<not> startsWith isDecimalDigit r1" "startsWith isDecimalDigit u \<longrightarrow> ip \<noteq> []" by blast
  have "\<exists>fr r2. (case fr of None \<Rightarrow> ip \<noteq> [] | Some fp \<Rightarrow> list_all isDecimalDigit fp \<and> (ip \<noteq> [] \<or> fp \<noteq> [])) \<and>
      \<not> startsWith isDecimalDigit r2 \<and> (fr = None \<longrightarrow> \<not> startsWith (\<lambda>c. c = CHR ''.'') r2) \<and>
      r1 = fracText fr @ r2"
  proof (cases "startsWith (\<lambda>c. c = CHR ''.'') r1")
    case False
    have "ip \<noteq> []"
    proof (cases "isDecimalDigit c")
      case True
      with assms(1) ip(4) show ?thesis by (simp add: startsWith_def)
    next
      case notdigit: False
      with assms have "c = CHR ''.''" by simp
      with assms(1) ip(1) False show ?thesis by (cases ip) (auto simp: startsWith_def)
    qed
    with ip(3) False show ?thesis
      by (intro exI[of _ None] exI[of _ r1]) (simp add: fracText_def)
  next
    case True
    then obtain r' where r': "r1 = CHR ''.'' # r'" by (cases r1) (auto simp: startsWith_def)
    from split_digits[of r'] obtain fp r2 where fp: "r' = fp @ r2" "list_all isDecimalDigit fp"
      "\<not> startsWith isDecimalDigit r2" "startsWith isDecimalDigit r' \<longrightarrow> fp \<noteq> []" by blast
    have "ip \<noteq> [] \<or> fp \<noteq> []"
    proof (cases ip)
      case Nil
      with ip(1) r' assms(1) have "c = CHR ''.''" "r = r'" by simp_all
      with assms(2) have "startsWith isDecimalDigit r'" by (simp add: special_not_digit)
      with fp(4) show ?thesis by simp
    next
      case (Cons a as)
      then show ?thesis by simp
    qed
    with fp r' show ?thesis
      by (intro exI[of _ "Some fp"] exI[of _ r2]) (simp add: fracText_def)
  qed
  then obtain fr r2 where fr:
    "case fr of None \<Rightarrow> ip \<noteq> [] | Some fp \<Rightarrow> list_all isDecimalDigit fp \<and> (ip \<noteq> [] \<or> fp \<noteq> [])"
    "\<not> startsWith isDecimalDigit r2" "fr = None \<longrightarrow> \<not> startsWith (\<lambda>c. c = CHR ''.'') r2"
    "r1 = fracText fr @ r2" by blast
  from split_optional_exponent[OF fr(2)] obtain ex rest where ex:
    "case ex of
       None \<Rightarrow> True
     | Some (c, s, ds) \<Rightarrow> (c = CHR ''e'' \<or> c = CHR ''E'') \<and> ds \<noteq> [] \<and> list_all isDecimalDigit ds"
    "\<not> startsWith isDecimalDigit rest" "ex = None \<longrightarrow> \<not> startsExponent rest \<and> rest = r2"
    "r2 = expText ex @ rest" by blast
  let ?lit = "\<lparr>dl_sign = s, dl_int = ip, dl_frac = fr, dl_exp = ex\<rparr>"
  have "wellFormed ?lit" using ip(2) fr(1) ex(1)
    by (simp add: wellFormed_def split: option.splits)
  moreover have "endsLiteral ?lit rest" using ex(2,3) fr(3) by (auto simp: endsLiteral_def)
  moreover have "u = dl_int ?lit @ fracText (dl_frac ?lit) @ expText (dl_exp ?lit) @ rest"
    using ip(1) fr(4) ex(4) by simp
  ultimately show ?thesis by (intro exI[of _ ?lit] exI[of _ rest]) simp
qed

text \<open>
  A text that \<open>startsNumeric\<close> is an optionally signed \<open>Infinity\<close> followed by any text, or
  a well-formed literal followed by a text that does not continue it: the two forms for
  which \<open>parseFloat_Infinity\<close> and \<open>parseFloat_literal\<close> give the number.
\<close>

lemma startsNumeric_forms:
  assumes "startsNumeric t"
  shows "(\<exists>s rest. t = signText s @ ''Infinity'' @ rest) \<or>
         (\<exists>lit rest. wellFormed lit \<and> endsLiteral lit rest \<and> t = literalText lit @ rest)"
proof -
  obtain s u where su: "t = signText s @ u"
    "take 8 u = ''Infinity'' \<or>
      (case u of
         [] \<Rightarrow> False
       | c # r \<Rightarrow>
           isDecimalDigit c \<or>
           (c = CHR ''.'' \<and> (case r of [] \<Rightarrow> False | d # _ \<Rightarrow> isDecimalDigit d)))"
  proof (cases t)
    case Nil
    with assms show ?thesis by (simp add: startsNumeric_def)
  next
    case (Cons c r)
    show ?thesis
    proof (cases "c = CHR ''+''")
      case True
      with Cons assms that[of Plus r] show ?thesis
        by (simp add: startsNumeric_def signText_def del: take_Suc_Cons)
    next
      case notplus: False
      show ?thesis
      proof (cases "c = CHR ''-''")
        case True
        with Cons assms that[of Minus r] show ?thesis
          by (simp add: startsNumeric_def signText_def del: take_Suc_Cons)
      next
        case False
        with notplus Cons assms that[of NoSign t] show ?thesis
          by (simp add: startsNumeric_def signText_def del: take_Suc_Cons)
      qed
    qed
  qed
  from su(2) show ?thesis
  proof
    assume "take 8 u = ''Infinity''"
    then have "u = ''Infinity'' @ drop 8 u" by (metis append_take_drop_id)
    with su(1) show ?thesis by blast
  next
    assume a: "case u of
         [] \<Rightarrow> False
       | c # r \<Rightarrow>
           isDecimalDigit c \<or>
           (c = CHR ''.'' \<and> (case r of [] \<Rightarrow> False | d # _ \<Rightarrow> isDecimalDigit d))"
    then obtain c r where u: "u = c # r" by (cases u) auto
    with a have "isDecimalDigit c \<or> (c = CHR ''.'' \<and> startsWith isDecimalDigit r)"
      by (simp add: startsWith_def)
    from unsigned_numeric_literal[OF u this, of s] obtain lit rest where
      "dl_sign lit = s" "wellFormed lit" "endsLiteral lit rest"
      "u = dl_int lit @ fracText (dl_frac lit) @ expText (dl_exp lit) @ rest" by blast
    with su(1) have "wellFormed lit \<and> endsLiteral lit rest \<and> t = literalText lit @ rest"
      by (simp add: literalText_def)
    then show ?thesis by blast
  qed
qed

text \<open>
  C3, as the claim states it, fails. A master table row whose latitude field is \<open>14.5abc\<close>
  gives a station whose latitude is the number 14.5 (145 times ten to the -1, that is 29/2):
  \<open>parseFloat\<close> converts the longest leading decimal literal and ignores the rest, so the
  field coerces to the same number as \<open>14.5\<close> and not to \<open>NaN\<close>.
\<close>

theorem masterStation_truncates_counterexample:
  "map st_lat (map masterStation (csvToObjects ''id,lat,lng\<newline>s1,14.5abc,120.9'')) =
     [Decimal False 145 (- 1)] \<and>
   parseFloat (Some ''14.5abc'') = parseFloat (Some ''14.5'') \<and>
   parseFloat (Some ''14.5abc'') \<noteq> NaN \<and>
   decimalValue (parseFloat (Some ''14.5abc'')) = Some (29 / 2)"
  by (simp add: csvToObjects_def csvSplit_def rowObject_def setField_def propertyKey_def
      masterStation_def parseFloat_def ToString_def isStrWhiteSpaceChar_def
      strUnsignedDecimalLiteral_def isDecimalDigit_def digitsValue_def exponentPart_def
      decimalValue_def)

text \<open>
  C3, amended. The latitude of the station made from a master record is \<open>NaN\<close> exactly when
  the field, read as a text (\<open>undefined\<close> when absent) and without its leading white space,
  does not start with a number; likewise the longitude. A field that consists of white
  space, a well-formed signed decimal literal (with or without a dot, with or without an
  exponent) and a text that does not continue the literal coerces to the number of that
  literal: the text after it is dropped. A field that consists of white space, an optional
  sign, \<open>Infinity\<close> and any text coerces to that infinity. Every text that starts with a
  number has one of these two forms (\<open>startsNumeric_forms\<close>).
\<close>

theorem masterStation_coordinates:
  "(st_lat (masterStation r) = NaN) =
     (\<not> startsNumeric (dropWhile isStrWhiteSpaceChar (ToString (r ''lat'')))) \<and>
   (st_lng (masterStation r) = NaN) =
     (\<not> startsNumeric (dropWhile isStrWhiteSpaceChar (ToString (r ''lng'')))) \<and>
   (\<forall>w lit rest. list_all isStrWhiteSpaceChar w \<and> wellFormed lit \<and> endsLiteral lit rest \<longrightarrow>
      (r ''lat'' = Some (w @ literalText lit @ rest) \<longrightarrow>
         st_lat (masterStation r) = literalNumber lit) \<and>
      (r ''lng'' = Some (w @ literalText lit @ rest) \<longrightarrow>
         st_lng (masterStation r) = literalNumber lit)) \<and>
   (\<forall>w s rest. list_all isStrWhiteSpaceChar w \<longrightarrow>
      (r ''lat'' = Some (w @ signText s @ ''Infinity'' @ rest) \<longrightarrow>
         st_lat (masterStation r) = Infinity (s = Minus)) \<and>
      (r ''lng'' = Some (w @ signText s @ ''Infinity'' @ rest) \<longrightarrow>
         st_lng (masterStation r) = Infinity (s = Minus)))"
proof -
  have "st_lat (masterStation r) = parseFloat (r ''lat'')"
    and "st_lng (masterStation r) = parseFloat (r ''lng'')"
    by (simp_all add: masterStation_def)
  then show ?thesis
    by (simp only: parseFloat_NaN) (metis parseFloat_literal parseFloat_Infinity)
qed

theorem masterStation_coordinates_witness:
  "st_lat (masterStation [''lat'' \<mapsto> ''north'', ''lng'' \<mapsto> '' -1.25e+2xyz'']) = NaN \<and>
   st_lng (masterStation [''lat'' \<mapsto> ''north'', ''lng'' \<mapsto> '' -1.25e+2xyz'']) =
     Decimal True 125 0 \<and>
   st_lat (masterStation [''lat'' \<mapsto> ''14.5abc'', ''lng'' \<mapsto> ''-Infinity'']) =
     Decimal False 145 (- 1) \<and>
   st_lng (masterStation [''lat'' \<mapsto> ''14.5abc'', ''lng'' \<mapsto> ''-Infinity'']) = Infinity True"
proof -
  let ?r = "[''lat'' \<mapsto> ''north'', ''lng'' \<mapsto> '' -1.25e+2xyz'']"
  let ?lit = "\<lparr>dl_sign = Minus, dl_int = ''1'', dl_frac = Some ''25'',
                dl_exp = Some (CHR ''e'', Plus, ''2'')\<rparr>"
  let ?r' = "[''lat'' \<mapsto> ''14.5abc'', ''lng'' \<mapsto> ''-Infinity'']"
  let ?lit' = "\<lparr>dl_sign = NoSign, dl_int = ''14'', dl_frac = Some ''5'', dl_exp = None\<rparr>"
  note a = masterStation_coordinates[of ?r]
  note b = masterStation_coordinates[of ?r']
  have 1: "st_lat (masterStation ?r) = NaN"
    using a[THEN conjunct1]
    by (simp add: startsNumeric_def isStrWhiteSpaceChar_def isDecimalDigit_def ToString_def)
  have ws: "list_all isStrWhiteSpaceChar '' ''" by (simp add: isStrWhiteSpaceChar_def)
  have wf: "wellFormed ?lit" by (simp add: wellFormed_def isDecimalDigit_def)
  have fin: "endsLiteral ?lit ''xyz''"
    by (simp add: endsLiteral_def startsWith_def isDecimalDigit_def)
  have field: "?r ''lng'' = Some ('' '' @ literalText ?lit @ ''xyz'')"
    by (simp add: literalText_def signText_def fracText_def expText_def)
  have num: "literalNumber ?lit = Decimal True 125 0"
    by (simp add: literalNumber_def fracDigits_def expValue_def digitsValue_def)
  have 2: "st_lng (masterStation ?r) = Decimal True 125 0"
    using a[THEN conjunct2, THEN conjunct2, THEN conjunct1, rule_format, of "'' ''" ?lit "''xyz''",
        THEN conjunct2, rule_format, OF conjI[OF ws conjI[OF wf fin]] field]
    by (simp only: num)
  have ws': "list_all isStrWhiteSpaceChar []" by simp
  have wf': "wellFormed ?lit'" by (simp add: wellFormed_def isDecimalDigit_def)
  have fin': "endsLiteral ?lit' ''abc''"
    by (simp add: endsLiteral_def startsWith_def startsExponent_def isDecimalDigit_def)
  have field': "?r' ''lat'' = Some ([] @ literalText ?lit' @ ''abc'')"
    by (simp add: literalText_def signText_def fracText_def expText_def)
  have num': "literalNumber ?lit' = Decimal False 145 (- 1)"
    by (simp add: literalNumber_def fracDigits_def expValue_def digitsValue_def)
  have 3: "st_lat (masterStation ?r') = Decimal False 145 (- 1)"
    using b[THEN conjunct2, THEN conjunct2, THEN conjunct1, rule_format, of "[]" ?lit' "''abc''",
        THEN conjunct1, rule_format, OF conjI[OF ws' conjI[OF wf' fin']] field']
    by (simp only: num')
  have inf: "?r' ''lng'' = Some ([] @ signText Minus @ ''Infinity'' @ [])"
    by (simp add: signText_def)
  have 4: "st_lng (masterStation ?r') = Infinity True"
    using b[THEN conjunct2, THEN conjunct2, THEN conjunct2, rule_format, of "[]" Minus "[]",
        THEN conjunct2, rule_format, OF ws' inf]
    by simp
  from 1 2 3 4 show ?thesis by (simp only: simp_thms)
qed

section \<open>Properties of the audio player\<close>

text \<open>
  C6. From a page that is not muted, with volume \<open>v\<close>: the first click on the volume button
  mutes (volume 0), and the second click restores the volume to exactly \<open>v\<close> when \<open>v\<close> is
  greater than zero and to the default 0.7 when \<open>v\<close> is zero. Volume levels are modelled as
  real numbers; the handler only stores and compares them.
\<close>

theorem mute_then_unmute_restores_volume:
  "\<not> isMuted p \<Longrightarrow>
   audio_volume (volumeBtn_click p) = 0 \<and> isMuted (volumeBtn_click p) \<and>
   (0 < audio_volume p \<longrightarrow> audio_volume (volumeBtn_click (volumeBtn_click p)) = audio_volume p) \<and>
   (audio_volume p = 0 \<longrightarrow> audio_volume (volumeBtn_click (volumeBtn_click p)) = 0.7) \<and>
   \<not> isMuted (volumeBtn_click (volumeBtn_click p))"
  by (simp add: volumeBtn_click_def showVolumePanel_def updateVolumeButton_def Let_def)

theorem mute_then_unmute_restores_volume_witness:
  "audio_volume (volumeBtn_click (volumeBtn_click (demoDocument\<lparr>audio_volume := 0.3\<rparr>))) = 0.3 \<and>
   audio_volume (volumeBtn_click (volumeBtn_click (demoDocument\<lparr>audio_volume := 0\<rparr>))) = 0.7"
proof -
  have m: "\<not> isMuted (demoDocument\<lparr>audio_volume := v\<rparr>)" for v
    by (simp add: demoDocument_def)
  from mute_then_unmute_restores_volume[OF m, of "0.3"]
    mute_then_unmute_restores_volume[OF m, of 0]
  show ?thesis by simp
qed

text \<open>
  C7 does not hold of the play button. When nothing is playing and the platform rejects
  \<open>play()\<close>, the click handler writes a console line, and then shows the label \<open>Pause\<close>
  and sets \<open>isPlaying\<close>: the page does not end in the paused visual state. (The rejection
  handlers of \<open>selectStation\<close> and of the \<open>ended\<close> event do reset the label.)
\<close>

theorem playBtn_click_rejected:
  "playBtn_click Rejected (p\<lparr>isPlaying := False\<rparr>) =
     Inr (p\<lparr>playBtn := ''Pause'', isPlaying := True, console := console p @ [LogAudioPlayFailed]\<rparr>)"
  by (simp add: playBtn_click_def)

section \<open>Properties of the selection state machine\<close>

subsection \<open>Reading the objects\<close>

lemma stationsGet_plain:
  "plainKey key \<Longrightarrow>
   stationsGet so key = (case so_own so key of None \<Rightarrow> Undefined | Some entry \<Rightarrow> Object entry)"
  by (simp add: stationsGet_def plainKey_def objectPrototypeNames_def split: option.splits)

lemma truthy_plain:
  "plainKey key \<Longrightarrow> truthy (stationsGet so key) = (so_own so key \<noteq> None)"
  by (simp add: stationsGet_plain truthy_def split: option.splits)

lemma truthy_entry: "so_own so key = Some entry \<Longrightarrow> stationsGet so key = Object entry"
  by (simp add: stationsGet_def)

lemma dateGet_known: "dc d = Some content \<Longrightarrow> dateGet dc d = Object content"
  by (simp add: dateGet_def)

lemma stationsAt_known: "stationsAt (Object content) key = Inr (stationsGet (dc_stations content) key)"
  by (simp add: stationsAt_def stationsOf_def)

lemma hasData_plain:
  "plainKey (ToString (st_id station)) \<Longrightarrow> hasData content station = hasEntry content station"
  by (simp add: hasData_def hasEntry_def truthy_plain)

lemma find_hasData_plain:
  "plainRoster sts \<Longrightarrow> find (hasData content) sts = find (hasEntry content) sts"
  by (induction sts) (simp_all add: plainRoster_def hasData_plain)

lemma filter_hasData_plain:
  "plainRoster sts \<Longrightarrow> filter (hasData content) sts = filter (hasEntry content) sts"
  by (induction sts) (simp_all add: plainRoster_def hasData_plain)

subsection \<open>Invalid requests\<close>

lemma step_SetDate: "step (SetDate d) played p = changePanelContent played (p\<lparr>selectDate := d\<rparr>)"
  by (simp add: step_def)

lemma step_SelectStation: "step (SelectStation sid) played p = selectStation played sid p"
  by (simp add: step_def)

lemma optionalStationsAt_not_inherited:
  "dateGet dc d \<noteq> Inherited \<Longrightarrow>
   optionalStationsAt (dateGet dc d) key =
     Inr (case dc d of None \<Rightarrow> Undefined | Some content \<Rightarrow> stationsGet (dc_stations content) key)"
  by (simp add: optionalStationsAt_def dateGet_def stationsAt_def stationsOf_def
      split: option.splits if_splits)

text \<open>
  The guard of \<open>selectStation\<close>. Let the date selector hold an identifier that is a known
  date or that reads as \<open>undefined\<close> from \<open>dateContent\<close> (it is not the name of a property
  that \<open>dateContent\<close> inherits). A call of \<open>selectStation\<close> with an id that no roster
  station has, or with an id that is a plain key and has no entry under the date of the date
  selector (also when that date has no content at all), returns without a fault, and the
  page it leaves is the page it found with one more console line, the warning.
\<close>

lemma selectStation_invalid_is_noop:
  assumes "dateGet (dateContent p) (selectDate p) \<noteq> Inherited"
      and "find (\<lambda>s. st_id s = stationId) (stations p) = None \<or>
           plainKey (ToString stationId) \<and>
           (case dateContent p (selectDate p) of
              None \<Rightarrow> None
            | Some content \<Rightarrow> so_own (dc_stations content) (ToString stationId)) = None"
  shows "selectStation played stationId p =
     Inr (p\<lparr>console := console p @ [WarnNoStationData stationId (selectDate p)]\<rparr>)"
proof (cases "find (\<lambda>s. st_id s = stationId) (stations p)")
  case None
  then show ?thesis
    by (simp add: selectStation_def Let_def optionalStationsAt_not_inherited[OF assms(1)])
next
  case (Some station)
  with assms(2) have plain: "plainKey (ToString stationId)"
    and none: "(case dateContent p (selectDate p) of
              None \<Rightarrow> None
            | Some content \<Rightarrow> so_own (dc_stations content) (ToString stationId)) = None"
    by simp_all
  have "\<not> truthy (case dateContent p (selectDate p) of None \<Rightarrow> Undefined
      | Some content \<Rightarrow> stationsGet (dc_stations content) (ToString stationId))"
  proof (cases "dateContent p (selectDate p)")
    case None
    then show ?thesis by (simp add: truthy_def)
  next
    case (Some content)
    with none show ?thesis by (simp add: truthy_plain[OF plain])
  qed
  with Some show ?thesis
    by (simp add: selectStation_def Let_def optionalStationsAt_not_inherited[OF assms(1)])
qed


subsection \<open>Rendering and selecting\<close>

lemma renderStations_ok:
  "list_all (\<lambda>s. st_marker s \<noteq> None) sts \<Longrightarrow>
   \<exists>sts' items lines. renderStations d (Object c) sts = Inr (sts', items, lines)"
  by (induction sts) (auto simp: stationsAt_known split: option.splits)

lemma renderStations_result:
  "renderStations d (Object c) sts = Inr (sts', items, lines) \<Longrightarrow>
   map st_id sts' = map st_id sts \<and>
   (list_all (\<lambda>s. st_marker s \<noteq> None) sts \<longrightarrow> list_all (\<lambda>s. st_marker s \<noteq> None) sts') \<and>
   map it_station items = map (\<lambda>s. ToString (st_id s)) (filter (hasData c) sts) \<and>
   list_all (\<lambda>item. \<not> it_active item) items"
proof (induction sts arbitrary: sts' items lines)
  case Nil
  then show ?case by simp
next
  case (Cons s sts)
  then show ?case
    by (auto simp: hasData_def stationsAt_known split: option.splits sum.splits if_splits)
qed

lemma renderStations_none:
  "\<not> list_ex (hasData c) sts \<Longrightarrow>
   renderStations d (Object c) sts = Inr (sts, [], map (\<lambda>s. LogNoDynamicData (st_id s) d) sts)"
  by (induction sts) (simp_all add: hasData_def stationsAt_known)

lemma plainRoster_map:
  "plainRoster sts = list_all (\<lambda>i. plainKey (ToString i)) (map st_id sts)"
  by (induction sts) (simp_all add: plainRoster_def)

lemma plainRoster_ids: "map st_id sts' = map st_id sts \<Longrightarrow> plainRoster sts' = plainRoster sts"
  by (simp only: plainRoster_map)

lemma list_ex_map:
  "list_ex (\<lambda>s. P (st_id s)) sts = list_ex P (map st_id sts)"
  by (induction sts) simp_all

lemma find_by_id:
  "map st_id sts' = map st_id sts \<Longrightarrow>
   map_option st_id (find (\<lambda>s. P (st_id s)) sts') = map_option st_id (find (\<lambda>s. P (st_id s)) sts)"
proof (induction sts arbitrary: sts')
  case Nil
  then show ?case by simp
next
  case (Cons s sts)
  then obtain t ts where "sts' = t # ts" by (cases sts') auto
  with Cons show ?case by auto
qed

lemma list_ex_by_id:
  "map st_id sts' = map st_id sts \<Longrightarrow>
   list_ex (\<lambda>s. P (st_id s)) sts' = list_ex (\<lambda>s. P (st_id s)) sts"
  by (simp only: list_ex_map)

lemma selectStation_cases:
  assumes "optionalStationsAt (dateGet (dateContent p) (selectDate p)) (ToString sid) = Inr v"
  shows "selectStation played sid p =
     (case find (\<lambda>s. st_id s = sid) (stations p) of
        None \<Rightarrow> Inr (p\<lparr>console := console p @ [WarnNoStationData sid (selectDate p)]\<rparr>)
      | Some station \<Rightarrow>
          if \<not> truthy v
          then Inr (p\<lparr>console := console p @ [WarnNoStationData sid (selectDate p)]\<rparr>)
          else
            (case currentStationEl p of
               None \<Rightarrow> Inl TypeError
             | Some el \<Rightarrow>
                 (case st_marker station of
                    None \<Rightarrow> Inl TypeError
                  | Some m \<Rightarrow> Inr (autoPlaySettled played (selectedPage p sid station el v)))))"
  using assms
  by (simp add: selectStation_def Let_def resetProgress_def selectedPage_def split: option.splits)

lemma selectStation_fault:
  "optionalStationsAt (dateGet (dateContent p) (selectDate p)) (ToString sid) = Inl f \<Longrightarrow>
   selectStation played sid p = Inl f"
  by (simp add: selectStation_def)

lemma settled_simps:
  "dateContent (autoPlaySettled played q) = dateContent q"
  "selectDate (autoPlaySettled played q) = selectDate q"
  "stations (autoPlaySettled played q) = stations q"
  "stationList (autoPlaySettled played q) = stationList q"
  "currentStationEl (autoPlaySettled played q) = currentStationEl q"
  "currentlySelectedId (autoPlaySettled played q) = currentlySelectedId q"
  by (simp_all add: autoPlaySettled_def currentlySelectedId_def split: play_result.splits)

lemma selectedPage_simps:
  "dateContent (selectedPage p sid st el v) = dateContent p"
  "selectDate (selectedPage p sid st el v) = selectDate p"
  "stations (selectedPage p sid st el v) = stations p"
  "(stationList (selectedPage p sid st el v) = None) = (stationList p = None)"
  "currentStationEl (selectedPage p sid st el v) \<noteq> None"
  "currentlySelectedId (selectedPage p sid st el v) = Some (ToString sid)"
  by (simp_all add: selectedPage_def currentlySelectedId_def)

lemma warned_simps:
  "currentlySelectedId (p\<lparr>console := c\<rparr>) = currentlySelectedId p"
  by (simp add: currentlySelectedId_def)

text \<open>
  What a call of \<open>selectStation\<close> that returns has done: either it has only written the
  warning, or it has found the station in the roster and a truthy value under its id, and
  has made the id the selected one.
\<close>

lemma selectStation_result:
  assumes "selectStation played sid p = Inr p'"
  shows "dateContent p' = dateContent p \<and> selectDate p' = selectDate p \<and>
         stations p' = stations p \<and> (stationList p' = None) = (stationList p = None) \<and>
         (currentStationEl p' = None) = (currentStationEl p = None) \<and>
         (currentlySelectedId p' = currentlySelectedId p \<or>
          (\<exists>st v. find (\<lambda>s. st_id s = sid) (stations p) = Some st \<and>
             optionalStationsAt (dateGet (dateContent p) (selectDate p)) (ToString sid) = Inr v \<and>
             truthy v \<and> currentlySelectedId p' = Some (ToString sid)))"
proof (cases "optionalStationsAt (dateGet (dateContent p) (selectDate p)) (ToString sid)")
  case (Inl f)
  with assms show ?thesis by (simp add: selectStation_fault)
next
  case (Inr v)
  note cases = selectStation_cases[OF Inr, of played]
  show ?thesis
  proof (cases "find (\<lambda>s. st_id s = sid) (stations p)")
    case None
    with cases assms have "p' = p\<lparr>console := console p @ [WarnNoStationData sid (selectDate p)]\<rparr>"
      by simp
    then show ?thesis by (simp add: warned_simps)
  next
    case (Some st)
    show ?thesis
    proof (cases "truthy v")
      case False
      with Some cases assms
      have "p' = p\<lparr>console := console p @ [WarnNoStationData sid (selectDate p)]\<rparr>"
        by simp
      then show ?thesis by (simp add: warned_simps)
    next
      case True
      with Some cases assms obtain el m where el: "currentStationEl p = Some el"
        and "st_marker st = Some m"
        and p': "p' = autoPlaySettled played (selectedPage p sid st el v)"
        by (auto split: option.splits)
      from p' have "currentlySelectedId p' = Some (ToString sid)"
        and "dateContent p' = dateContent p" and "selectDate p' = selectDate p"
        and "stations p' = stations p" and "(stationList p' = None) = (stationList p = None)"
        and "currentStationEl p' \<noteq> None"
        by (simp_all add: settled_simps selectedPage_simps)
      with Some Inr True el show ?thesis by simp
    qed
  qed
qed

lemma selectStation_frame:
  assumes "selectStation played sid p = Inr p'"
  shows "dateContent p' = dateContent p \<and> selectDate p' = selectDate p \<and> stations p' = stations p \<and>
   (stationList p' = None) = (stationList p = None)"
  using selectStation_result[OF assms] by simp

lemma selectStation_success:
  assumes "find (\<lambda>s. st_id s = sid) (stations p) = Some st"
      and "dateContent p (selectDate p) = Some c"
      and "truthy (stationsGet (dc_stations c) (ToString sid))"
  shows "selectStation played sid p = Inr p' \<Longrightarrow> currentlySelectedId p' = Some (ToString sid)"
    and "currentStationEl p \<noteq> None \<Longrightarrow> st_marker st \<noteq> None \<Longrightarrow> \<exists>p'. selectStation played sid p = Inr p'"
proof -
  from assms(2)
  have look: "optionalStationsAt (dateGet (dateContent p) (selectDate p)) (ToString sid) =
      Inr (stationsGet (dc_stations c) (ToString sid))"
    by (simp add: optionalStationsAt_def dateGet_known stationsAt_known)
  note cases = selectStation_cases[OF look, of played]
  show "currentlySelectedId p' = Some (ToString sid)" if "selectStation played sid p = Inr p'"
  proof -
    from that cases assms(1,3) obtain el where
      "p' = autoPlaySettled played (selectedPage p sid st el (stationsGet (dc_stations c) (ToString sid)))"
      by (auto split: option.splits)
    then show ?thesis by (simp add: settled_simps selectedPage_simps)
  qed
  show "\<exists>p'. selectStation played sid p = Inr p'"
    if "currentStationEl p \<noteq> None" "st_marker st \<noteq> None"
    using that cases assms(1,3) by auto
qed

lemma changePanelContent_rerendered:
  assumes "stationList p \<noteq> None"
      and "dateContent p (selectDate p) = Some content"
      and "renderStations (selectDate p) (Object content) (stations p) = Inr (sts, items, lines)"
  shows "changePanelContent played p =
     (case currentlySelectedId p of
        None \<Rightarrow> selectFirstWithData played (Object content) (rerendered p content sts items lines)
      | Some i \<Rightarrow>
          if i \<noteq> [] \<and> truthy (stationsGet (dc_stations content) i)
          then selectStation played (Some i) (rerendered p content sts items lines)
          else selectFirstWithData played (Object content) (rerendered p content sts items lines))"
proof -
  from assms(1) obtain old where old: "stationList p = Some old" by auto
  have "truthy (Object content)" by (simp add: truthy_def)
  with assms(2,3) old show ?thesis
    by (simp add: changePanelContent_def Let_def rerendered_def currentlySelectedId_def
        dateGet_known stationsAt_known titleOf_def contextOf_def textContentOf_def
        split: option.splits)
qed

lemma changePanelContent_fault:
  assumes "stationList p \<noteq> None"
      and "dateContent p (selectDate p) = Some content"
      and "renderStations (selectDate p) (Object content) (stations p) = Inl f"
  shows "changePanelContent played p = Inl f"
proof -
  from assms(1) obtain old where old: "stationList p = Some old" by auto
  have "truthy (Object content)" by (simp add: truthy_def)
  with assms(2,3) old show ?thesis
    by (simp add: changePanelContent_def Let_def dateGet_known)
qed

lemma rerendered_simps:
  "stations (rerendered p c sts items lines) = sts"
  "dateContent (rerendered p c sts items lines) = dateContent p"
  "selectDate (rerendered p c sts items lines) = selectDate p"
  "currentStationEl (rerendered p c sts items lines) = currentStationEl p"
  "stationList (rerendered p c sts items lines) = Some items"
  "currentlySelectedId (rerendered p c sts items lines) = currentlySelectedId p"
  "audio_src (rerendered p c sts items lines) = audio_src p"
  "stationDescriptionEl (rerendered p c sts items lines) = stationDescriptionEl p"
  "mapView (rerendered p c sts items lines) = mapView p"
  "openPopup (rerendered p c sts items lines) = openPopup p"
  "playBtn (rerendered p c sts items lines) = playBtn p"
  by (simp_all add: rerendered_def currentlySelectedId_def)

lemma find_hasData_by_id:
  "map st_id sts' = map st_id sts \<Longrightarrow>
   map_option st_id (find (hasData c) sts') = map_option st_id (find (hasData c) sts)"
  unfolding hasData_def
  by (rule find_by_id[of sts' sts "\<lambda>i. truthy (stationsGet (dc_stations c) (ToString i))"])

lemma selectFirstWithData_hasData:
  "selectFirstWithData played (Object c) q =
     (if length (stations q) > 0 then
        (case find (hasData c) (stations q) of
           None \<Rightarrow> Inr q
         | Some firstStationWithData \<Rightarrow> selectStation played (st_id firstStationWithData) q)
      else Inr q)"
  unfolding selectFirstWithData_def hasData_def stationsOf_def by simp

lemma find_own_id:
  "s \<in> set sts \<Longrightarrow> \<exists>t. find (\<lambda>x. st_id x = st_id s) sts = Some t \<and> t \<in> set sts"
  by (induction sts) auto

lemma find_None_filter: "find P xs = None \<Longrightarrow> filter P xs = []"
  by (induction xs) (auto split: if_splits)

lemma find_Some_set: "find P xs = Some x \<Longrightarrow> x \<in> set xs \<and> P x"
  by (induction xs) (auto split: if_splits)

lemma selectStation_found:
  assumes sel: "find (hasData c) (stations q) = Some f"
      and date: "dateContent q (selectDate q) = Some c"
      and el: "currentStationEl q \<noteq> None"
      and markers: "list_all (\<lambda>s. st_marker s \<noteq> None) (stations q)"
  shows "\<exists>q'. selectStation played (st_id f) q = Inr q' \<and>
           currentlySelectedId q' = Some (ToString (st_id f))"
proof -
  from sel have f: "f \<in> set (stations q)" "hasData c f" by (auto dest: find_Some_set)
  then obtain t where t: "find (\<lambda>x. st_id x = st_id f) (stations q) = Some t" "t \<in> set (stations q)"
    using find_own_id by blast
  with markers have m: "st_marker t \<noteq> None" by (auto simp: list_all_iff)
  from f have dyn: "truthy (stationsGet (dc_stations c) (ToString (st_id f)))"
    by (simp add: hasData_def)
  from selectStation_success(2)[OF t(1) date dyn el m]
  obtain q' where "selectStation played (st_id f) q = Inr q'" by blast
  with selectStation_success(1)[OF t(1) date dyn] show ?thesis by blast
qed

lemma selectFirstWithData_frame:
  assumes "selectFirstWithData played (Object c) q = Inr p'"
  shows "selectDate p' = selectDate q \<and> dateContent p' = dateContent q \<and>
         stations p' = stations q \<and> (stationList p' = None) = (stationList q = None)"
proof (cases "find (hasData c) (stations q)")
  case None
  with assms have "p' = q" by (simp add: selectFirstWithData_hasData split: if_splits)
  then show ?thesis by simp
next
  case (Some f)
  with assms have "selectStation played (st_id f) q = Inr p'"
    by (simp add: selectFirstWithData_hasData split: if_splits)
  from selectStation_frame[OF this] show ?thesis by simp
qed

text \<open>
  What \<open>changePanelContent\<close> does to the selection on a ready page whose date selector holds a
  known date, in terms of the tests that the script makes.
\<close>

lemma changePanelContent_selection:
  assumes ready: "pageReady p"
      and date: "dateContent p (selectDate p) = Some content"
  shows "\<exists>p'. changePanelContent played p = Inr p' \<and> selectDate p' = selectDate p \<and>
     (\<forall>i. currentlySelectedId p = Some i \<and> i \<noteq> [] \<and>
          truthy (stationsGet (dc_stations content) i) \<longrightarrow>
          currentlySelectedId p' = Some i) \<and>
     (\<forall>st. (\<forall>i. currentlySelectedId p = Some i \<longrightarrow>
                i = [] \<or> \<not> truthy (stationsGet (dc_stations content) i)) \<and>
           find (hasData content) (stations p) = Some st \<longrightarrow>
          currentlySelectedId p' = Some (ToString (st_id st))) \<and>
     (find (hasData content) (stations p) = None \<longrightarrow>
          currentlySelectedId p' = currentlySelectedId p \<and>
          currentStationEl p' = currentStationEl p \<and> stationList p' = Some [] \<and>
          stationDescriptionEl p' = stationDescriptionEl p \<and> audio_src p' = audio_src p \<and>
          mapView p' = mapView p \<and> openPopup p' = openPopup p \<and> playBtn p' = playBtn p)"
proof -
  from ready have list: "stationList p \<noteq> None" and el: "currentStationEl p \<noteq> None"
    and markers: "list_all (\<lambda>s. st_marker s \<noteq> None) (stations p)"
    by (simp_all add: pageReady_def)
  from renderStations_ok[OF markers] obtain sts items lines
    where render: "renderStations (selectDate p) (Object content) (stations p) = Inr (sts, items, lines)"
    by blast
  define q where "q = rerendered p content sts items lines"
  note cp = changePanelContent_rerendered[OF list date render, of played, folded q_def]
  from renderStations_result[OF render] markers
  have ids: "map st_id sts = map st_id (stations p)"
    and markers': "list_all (\<lambda>s. st_marker s \<noteq> None) sts"
    and items: "map it_station items = map (\<lambda>s. ToString (st_id s)) (filter (hasData content) (stations p))"
    by simp_all
  have q: "stations q = sts" "dateContent q (selectDate q) = Some content"
    "currentStationEl q \<noteq> None" "currentlySelectedId q = currentlySelectedId p"
    "list_all (\<lambda>s. st_marker s \<noteq> None) (stations q)" "selectDate q = selectDate p"
    using date el markers' by (simp_all add: q_def rerendered_simps)
  have same: "map_option st_id (find (hasData content) sts) =
      map_option st_id (find (hasData content) (stations p))"
    by (rule find_hasData_by_id[OF ids])
  have none: "items = []" if "find (hasData content) (stations p) = None"
    using that items by (simp add: find_None_filter)
  have unchanged: "currentStationEl q = currentStationEl p \<and> stationList q = Some items \<and>
      stationDescriptionEl q = stationDescriptionEl p \<and> audio_src q = audio_src p \<and>
      mapView q = mapView p \<and> openPopup q = openPopup p \<and> playBtn q = playBtn p"
    by (simp add: q_def rerendered_simps)
  \<comment> \<open>the fallback branch\<close>
  have fallback: "\<exists>p'. selectFirstWithData played (Object content) q = Inr p' \<and>
      selectDate p' = selectDate p \<and>
      (\<forall>st. find (hasData content) (stations p) = Some st \<longrightarrow>
         currentlySelectedId p' = Some (ToString (st_id st))) \<and>
      (find (hasData content) (stations p) = None \<longrightarrow> p' = q)"
  proof (cases "find (hasData content) sts")
    case None
    with same have "find (hasData content) (stations p) = None" by simp
    with None show ?thesis
      by (simp add: selectFirstWithData_hasData q(1) q(6))
  next
    case (Some f)
    with same obtain st where st: "find (hasData content) (stations p) = Some st" "st_id st = st_id f"
      by (cases "find (hasData content) (stations p)") auto
    from Some have "find (hasData content) (stations q) = Some f" by (simp add: q(1))
    from selectStation_found[OF this q(2) q(3) q(5), of played]
    obtain p' where p': "selectStation played (st_id f) q = Inr p'"
      "currentlySelectedId p' = Some (ToString (st_id f))" by blast
    from selectStation_frame[OF p'(1)] q(6) have "selectDate p' = selectDate p" by simp
    moreover from Some have "sts \<noteq> []" by auto
    ultimately show ?thesis using Some st p'
      by (simp add: selectFirstWithData_hasData q(1))
  qed
  show ?thesis
  proof (cases "\<exists>i. currentlySelectedId p = Some i \<and> i \<noteq> [] \<and>
      truthy (stationsGet (dc_stations content) i)")
    case False
    then have "changePanelContent played p = selectFirstWithData played (Object content) q"
      by (auto simp: cp split: option.splits)
    with fallback obtain p' where p': "changePanelContent played p = Inr p'"
      "selectDate p' = selectDate p"
      "\<forall>st. find (hasData content) (stations p) = Some st \<longrightarrow>
         currentlySelectedId p' = Some (ToString (st_id st))"
      "find (hasData content) (stations p) = None \<longrightarrow> p' = q"
      by auto
    have third: "find (hasData content) (stations p) = None \<longrightarrow>
          currentlySelectedId p' = currentlySelectedId p \<and>
          currentStationEl p' = currentStationEl p \<and> stationList p' = Some [] \<and>
          stationDescriptionEl p' = stationDescriptionEl p \<and> audio_src p' = audio_src p \<and>
          mapView p' = mapView p \<and> openPopup p' = openPopup p \<and> playBtn p' = playBtn p"
      using p'(4) unchanged none q(4) by simp
    from False have first: "\<forall>i. currentlySelectedId p = Some i \<and> i \<noteq> [] \<and>
          truthy (stationsGet (dc_stations content) i) \<longrightarrow> currentlySelectedId p' = Some i"
      by blast
    from p'(3) have second: "\<forall>st. (\<forall>i. currentlySelectedId p = Some i \<longrightarrow>
                i = [] \<or> \<not> truthy (stationsGet (dc_stations content) i)) \<and>
           find (hasData content) (stations p) = Some st \<longrightarrow>
          currentlySelectedId p' = Some (ToString (st_id st))"
      by blast
    from p'(1,2) first second third show ?thesis by (intro exI[of _ p'] conjI)
  next
    case True
    then obtain i where i: "currentlySelectedId p = Some i" "i \<noteq> []"
      "truthy (stationsGet (dc_stations content) i)"
      by auto
    then have run: "changePanelContent played p = selectStation played (Some i) q"
      by (simp add: cp)
    show ?thesis
    proof (cases "find (\<lambda>s. st_id s = Some i) sts")
      case None
      have look: "optionalStationsAt (dateGet (dateContent q) (selectDate q)) (ToString (Some i)) =
          Inr (stationsGet (dc_stations content) (ToString (Some i)))"
        using q(2) by (simp add: optionalStationsAt_def dateGet_known stationsAt_known)
      from None have p': "selectStation played (Some i) q =
          Inr (q\<lparr>console := console q @ [WarnNoStationData (Some i) (selectDate q)]\<rparr>)"
        by (simp add: selectStation_cases[OF look] q(1))
      define p' where "p' = q\<lparr>console := console q @ [WarnNoStationData (Some i) (selectDate q)]\<rparr>"
      have fields: "selectDate p' = selectDate p" "currentlySelectedId p' = Some i"
        "currentStationEl p' = currentStationEl p \<and> stationList p' = Some items \<and>
         stationDescriptionEl p' = stationDescriptionEl p \<and> audio_src p' = audio_src p \<and>
         mapView p' = mapView p \<and> openPopup p' = openPopup p \<and> playBtn p' = playBtn p"
        using unchanged q(4,6) i(1) by (simp_all add: p'_def warned_simps)
      from run p' have "changePanelContent played p = Inr p'" by (simp add: p'_def)
      with fields i none show ?thesis by auto
    next
      case (Some t)
      then have t: "t \<in> set sts" "st_id t = Some i" by (auto dest: find_Some_set)
      with markers' have m: "st_marker t \<noteq> None" by (auto simp: list_all_iff)
      from Some have found: "find (\<lambda>s. st_id s = Some i) (stations q) = Some t" by (simp add: q(1))
      from i have dyn: "truthy (stationsGet (dc_stations content) (ToString (Some i)))"
        by (simp add: ToString_def)
      from selectStation_success(2)[OF found q(2) dyn q(3) m]
      obtain p' where p': "selectStation played (Some i) q = Inr p'" by blast
      from selectStation_success(1)[OF found q(2) dyn p']
      have sel: "currentlySelectedId p' = Some i" by (simp add: ToString_def)
      from selectStation_frame[OF p'] q(6) have sd: "selectDate p' = selectDate p" by simp
      from t i have "hasData content t" by (simp add: hasData_def ToString_def)
      with t(1) have "find (hasData content) sts \<noteq> None" by (auto simp: find_None_iff)
      with same have "find (hasData content) (stations p) \<noteq> None"
        by (cases "find (hasData content) (stations p)") auto
      with run p' sel sd i show ?thesis by auto
    qed
  qed
qed

text \<open>
  C1, amended. On a ready page whose roster ids and selected id are plain keys, a change to a
  known date \<open>d\<close> (no entry of which is stored under the empty id, which the transformer
  guarantees, \<open>transformSheetData_no_blank\<close>) returns a page whose selector holds \<open>d\<close> and
  such that: if the previously selected id has an entry under the date, it is still the
  selected id; otherwise, if some roster station has an entry, the selected id is that of the
  first such station in roster order; and if no roster station has an entry, the selection
  is left as it was: the selected id, the current-station element, the displayed
  description, the audio source, the map view, the open popup and the play button are as
  before (a previously selected id is kept), and the rendered list is empty.
\<close>

theorem setDate_selection:
  assumes ready: "pageReady p" and plain: "plainIds p"
      and date: "dateContent p d = Some content"
      and noblank: "so_own (dc_stations content) [] = None"
  shows "\<exists>p'. step (SetDate d) played p = Inr p' \<and> selectDate p' = d \<and>
     (\<forall>i. currentlySelectedId p = Some i \<and> so_own (dc_stations content) i \<noteq> None \<longrightarrow>
          currentlySelectedId p' = Some i) \<and>
     (\<forall>st. (\<forall>i. currentlySelectedId p = Some i \<longrightarrow> so_own (dc_stations content) i = None) \<and>
           find (hasEntry content) (stations p) = Some st \<longrightarrow>
          currentlySelectedId p' = Some (ToString (st_id st))) \<and>
     (find (hasEntry content) (stations p) = None \<longrightarrow>
          currentlySelectedId p' = currentlySelectedId p \<and>
          currentStationEl p' = currentStationEl p \<and> stationList p' = Some [] \<and>
          stationDescriptionEl p' = stationDescriptionEl p \<and> audio_src p' = audio_src p \<and>
          mapView p' = mapView p \<and> openPopup p' = openPopup p \<and> playBtn p' = playBtn p)"
proof -
  define p0 where "p0 = p\<lparr>selectDate := d\<rparr>"
  have p0: "pageReady p0" "dateContent p0 (selectDate p0) = Some content"
    using ready date by (simp_all add: p0_def pageReady_def)
  have same: "currentlySelectedId p0 = currentlySelectedId p" "stations p0 = stations p"
    "selectDate p0 = d" "currentStationEl p0 = currentStationEl p"
    "stationDescriptionEl p0 = stationDescriptionEl p" "audio_src p0 = audio_src p"
    "mapView p0 = mapView p" "openPopup p0 = openPopup p" "playBtn p0 = playBtn p"
    by (simp_all add: p0_def currentlySelectedId_def)
  from plain have roster: "plainRoster (stations p)"
    and sel: "\<And>i. currentlySelectedId p = Some i \<Longrightarrow> plainKey i"
    by (simp_all add: plainIds_def)
  note find_eq = find_hasData_plain[OF roster, of content]
  show ?thesis
    using changePanelContent_selection[OF p0, of played, unfolded same]
  proof (elim exE conjE)
    fix p'
    assume run: "changePanelContent played p0 = Inr p'" and sd: "selectDate p' = d"
    and first: "\<forall>i. currentlySelectedId p = Some i \<and> i \<noteq> [] \<and>
          truthy (stationsGet (dc_stations content) i) \<longrightarrow> currentlySelectedId p' = Some i"
    and second: "\<forall>st. (\<forall>i. currentlySelectedId p = Some i \<longrightarrow>
                i = [] \<or> \<not> truthy (stationsGet (dc_stations content) i)) \<and>
           find (hasData content) (stations p) = Some st \<longrightarrow>
          currentlySelectedId p' = Some (ToString (st_id st))"
    and third: "find (hasData content) (stations p) = None \<longrightarrow>
          currentlySelectedId p' = currentlySelectedId p \<and>
          currentStationEl p' = currentStationEl p \<and> stationList p' = Some [] \<and>
          stationDescriptionEl p' = stationDescriptionEl p \<and> audio_src p' = audio_src p \<and>
          mapView p' = mapView p \<and> openPopup p' = openPopup p \<and> playBtn p' = playBtn p"
  from run have step: "step (SetDate d) played p = Inr p'" by (simp add: step_SetDate p0_def)
  have A: "\<forall>i. currentlySelectedId p = Some i \<and> so_own (dc_stations content) i \<noteq> None \<longrightarrow>
          currentlySelectedId p' = Some i"
  proof (intro allI impI)
    fix i assume i: "currentlySelectedId p = Some i \<and> so_own (dc_stations content) i \<noteq> None"
    with noblank have "i \<noteq> []" by auto
    moreover from i sel have "truthy (stationsGet (dc_stations content) i)"
      by (simp add: truthy_plain)
    ultimately show "currentlySelectedId p' = Some i" using first i by blast
  qed
  have B: "\<forall>st. (\<forall>i. currentlySelectedId p = Some i \<longrightarrow> so_own (dc_stations content) i = None) \<and>
           find (hasEntry content) (stations p) = Some st \<longrightarrow>
          currentlySelectedId p' = Some (ToString (st_id st))"
  proof (intro allI impI)
    fix st
    assume a: "(\<forall>i. currentlySelectedId p = Some i \<longrightarrow> so_own (dc_stations content) i = None) \<and>
           find (hasEntry content) (stations p) = Some st"
    have "\<forall>i. currentlySelectedId p = Some i \<longrightarrow>
                i = [] \<or> \<not> truthy (stationsGet (dc_stations content) i)"
    proof (intro allI impI)
      fix i assume i: "currentlySelectedId p = Some i"
      with a have "so_own (dc_stations content) i = None" by blast
      with sel[OF i] show "i = [] \<or> \<not> truthy (stationsGet (dc_stations content) i)"
        by (simp add: truthy_plain)
    qed
    moreover from a have "find (hasData content) (stations p) = Some st" by (simp add: find_eq)
    ultimately show "currentlySelectedId p' = Some (ToString (st_id st))" using second by blast
  qed
  from third have C: "find (hasEntry content) (stations p) = None \<longrightarrow>
          currentlySelectedId p' = currentlySelectedId p \<and>
          currentStationEl p' = currentStationEl p \<and> stationList p' = Some [] \<and>
          stationDescriptionEl p' = stationDescriptionEl p \<and> audio_src p' = audio_src p \<and>
          mapView p' = mapView p \<and> openPopup p' = openPopup p \<and> playBtn p' = playBtn p"
    by (simp only: find_eq)
  from step sd A B C show ?thesis by (intro exI[of _ p'] conjI)
  qed
qed

subsection \<open>Reachable pages\<close>

lemma selectionValid_cong:
  "currentlySelectedId p' = currentlySelectedId p \<Longrightarrow> dateContent p' = dateContent p \<Longrightarrow>
   selectDate p' = selectDate p \<Longrightarrow> stations p' = stations p \<Longrightarrow>
   selectionValid p' = selectionValid p"
  by (simp add: selectionValid_def cong: option.case_cong)

lemma plainIds_cong:
  "currentlySelectedId p' = currentlySelectedId p \<Longrightarrow> map st_id (stations p') = map st_id (stations p) \<Longrightarrow>
   plainIds p' = plainIds p"
  by (simp add: plainIds_def plainRoster_map cong: option.case_cong)

lemma selectionValid_entry:
  "currentlySelectedId p = Some i \<Longrightarrow> dateContent p (selectDate p) = Some c \<Longrightarrow>
   so_own (dc_stations c) i = Some dyn \<Longrightarrow> selectionValid p"
  by (simp add: selectionValid_def)

lemma plainRoster_member:
  "plainRoster sts \<Longrightarrow> st \<in> set sts \<Longrightarrow> plainKey (ToString (st_id st))"
  by (simp add: plainRoster_def list_all_iff)

lemma look_truthy:
  assumes "optionalStationsAt (dateGet dc d) key = Inr v" "truthy v"
  shows "\<exists>c. dc d = Some c \<and> v = stationsGet (dc_stations c) key"
proof (cases "dc d")
  case None
  with assms show ?thesis
    by (cases "d \<in> set objectPrototypeNames")
      (simp_all add: dateGet_def optionalStationsAt_def stationsAt_def stationsOf_def truthy_def)
next
  case (Some c)
  with assms(1) show ?thesis
    by (simp add: dateGet_known optionalStationsAt_def stationsAt_known)
qed

text \<open>A selection that was made has an entry under the selected date.\<close>

lemma selectStation_selected_entry:
  assumes roster: "plainRoster (stations p)"
      and found: "find (\<lambda>s. st_id s = sid) (stations p) = Some st"
      and look: "optionalStationsAt (dateGet (dateContent p) (selectDate p)) (ToString sid) = Inr v"
      and v: "truthy v"
  shows "plainKey (ToString sid) \<and>
         (\<exists>c dyn. dateContent p (selectDate p) = Some c \<and> so_own (dc_stations c) (ToString sid) = Some dyn)"
proof -
  from found have "st \<in> set (stations p)" "st_id st = sid" by (auto dest: find_Some_set)
  with plainRoster_member[OF roster] have plain: "plainKey (ToString sid)" by blast
  from look_truthy[OF look v] obtain c where c: "dateContent p (selectDate p) = Some c"
    "v = stationsGet (dc_stations c) (ToString sid)" by blast
  from v c(2) plain have "so_own (dc_stations c) (ToString sid) \<noteq> None"
    by (simp add: truthy_plain)
  with c(1) plain show ?thesis by auto
qed

lemma selectStation_keeps_valid:
  assumes inv: "stationList p \<noteq> None \<and> plainIds p \<and> selectionValid p"
      and sel: "selectStation played sid p = Inr p'"
  shows "stationList p' \<noteq> None \<and> plainIds p' \<and> selectionValid p'"
proof -
  from selectStation_result[OF sel]
  have frame: "dateContent p' = dateContent p" "selectDate p' = selectDate p"
    "stations p' = stations p" "(stationList p' = None) = (stationList p = None)"
    and change: "currentlySelectedId p' = currentlySelectedId p \<or>
          (\<exists>st v. find (\<lambda>s. st_id s = sid) (stations p) = Some st \<and>
             optionalStationsAt (dateGet (dateContent p) (selectDate p)) (ToString sid) = Inr v \<and>
             truthy v \<and> currentlySelectedId p' = Some (ToString sid))"
    by simp_all
  from inv frame(4) have list: "stationList p' \<noteq> None" by simp
  from change show ?thesis
  proof
    assume same: "currentlySelectedId p' = currentlySelectedId p"
    from frame(3) have "map st_id (stations p') = map st_id (stations p)" by simp
    from selectionValid_cong[OF same frame(1,2,3)] plainIds_cong[OF same this] inv list
    show ?thesis by simp
  next
    assume "\<exists>st v. find (\<lambda>s. st_id s = sid) (stations p) = Some st \<and>
             optionalStationsAt (dateGet (dateContent p) (selectDate p)) (ToString sid) = Inr v \<and>
             truthy v \<and> currentlySelectedId p' = Some (ToString sid)"
    then obtain st v where found: "find (\<lambda>s. st_id s = sid) (stations p) = Some st"
      and look: "optionalStationsAt (dateGet (dateContent p) (selectDate p)) (ToString sid) = Inr v"
      and v: "truthy v" and cur: "currentlySelectedId p' = Some (ToString sid)"
      by blast
    from inv have roster: "plainRoster (stations p)" by (simp add: plainIds_def)
    from selectStation_selected_entry[OF roster found look v]
    obtain c dyn where plain: "plainKey (ToString sid)"
      and c: "dateContent p (selectDate p) = Some c" "so_own (dc_stations c) (ToString sid) = Some dyn"
      by blast
    from c(1) frame have "dateContent p' (selectDate p') = Some c" by simp
    from selectionValid_entry[OF cur this c(2)] have "selectionValid p'" .
    moreover from roster plain cur frame(3) have "plainIds p'" by (simp add: plainIds_def)
    ultimately show ?thesis using list by simp
  qed
qed

lemma selectFirstWithData_makes_valid:
  assumes date: "dateContent q (selectDate q) = Some content"
      and list: "stationList q \<noteq> None"
      and plain: "plainIds q"
      and run: "selectFirstWithData played (Object content) q = Inr p'"
  shows "stationList p' \<noteq> None \<and> plainIds p' \<and> selectionValid p'"
proof -
  from plain have roster: "plainRoster (stations q)" by (simp add: plainIds_def)
  show ?thesis
  proof (cases "find (hasData content) (stations q)")
    case None
    then have "find (hasEntry content) (stations q) = None"
      by (simp add: find_hasData_plain[OF roster])
    then have no: "\<not> list_ex (hasEntry content) (stations q)"
      by (simp add: find_None_iff list_ex_iff)
    from None run have "p' = q"
      by (simp add: selectFirstWithData_hasData split: if_splits)
    with no date list plain show ?thesis by (simp add: selectionValid_def split: option.splits)
  next
    case (Some f)
    then have f: "f \<in> set (stations q)" "hasData content f" by (auto dest: find_Some_set)
    from find_own_id[OF f(1)] obtain t where t: "find (\<lambda>x. st_id x = st_id f) (stations q) = Some t"
      by blast
    from f(2) have dyn: "truthy (stationsGet (dc_stations content) (ToString (st_id f)))"
      by (simp add: hasData_def)
    from Some run have sel: "selectStation played (st_id f) q = Inr p'"
      by (simp add: selectFirstWithData_hasData split: if_splits)
    from selectStation_success(1)[OF t date dyn sel]
    have cur: "currentlySelectedId p' = Some (ToString (st_id f))" .
    from selectStation_frame[OF sel]
    have frame: "dateContent p' = dateContent q" "selectDate p' = selectDate q"
      "stations p' = stations q" "(stationList p' = None) = (stationList q = None)" by simp_all
    from plainRoster_member[OF roster f(1)] have key: "plainKey (ToString (st_id f))" .
    with dyn obtain e where "so_own (dc_stations content) (ToString (st_id f)) = Some e"
      by (auto simp: truthy_plain)
    moreover from frame date have "dateContent p' (selectDate p') = Some content" by simp
    ultimately have "selectionValid p'" using cur by (simp add: selectionValid_entry)
    moreover from roster key cur frame(3) have "plainIds p'" by (simp add: plainIds_def)
    ultimately show ?thesis using frame(4) list by simp
  qed
qed

lemma changePanelContent_undefined:
  assumes "dateContent p (selectDate p) = None" "selectDate p \<notin> set objectPrototypeNames"
  shows "changePanelContent played p =
     Inr (p\<lparr>console := console p @ [WarnNoDateContent (selectDate p), LogAvailableDateContent]\<rparr>)"
  using assms by (simp add: changePanelContent_def Let_def dateGet_def truthy_def)

text \<open>
  When the date selector holds the name of an inherited property, \<open>changePanelContent\<close>
  returns only if the roster is empty.
\<close>

lemma changePanelContent_inherited:
  assumes none: "dateContent p (selectDate p) = None"
      and name: "selectDate p \<in> set objectPrototypeNames"
      and list: "stationList p \<noteq> None"
      and run: "changePanelContent played p = Inr p'"
  shows "stations p' = [] \<and> currentlySelectedId p' = currentlySelectedId p \<and>
         dateContent p' = dateContent p \<and> selectDate p' = selectDate p \<and>
         stationList p' \<noteq> None \<and> currentStationEl p' = currentStationEl p"
proof -
  from none name have inh: "dateGet (dateContent p) (selectDate p) = Inherited"
    by (simp add: dateGet_def)
  from list obtain old where old: "stationList p = Some old" by auto
  define q where "q = p\<lparr>console := console p @ [LogLoadingContent (selectDate p)],
      infoSection :=
        map_option (\<lambda>_. ''Events of '' @ replaceFirst ''Feb'' ''February '' (selectDate p))
          (infoSection p),
      contextTitle := map_option (\<lambda>_. textContentOf (titleOf Inherited)) (contextTitle p),
      contextText := map_option (\<lambda>_. textContentOf (contextOf Inherited)) (contextText p),
      stations := [], stationList := Some [],
      console := (console p @ [LogLoadingContent (selectDate p)]) @ [] @
         [LogStationsFound (length ([] :: station_item list)) (selectDate p)]\<rparr>"
  have q: "stations q = []" "currentlySelectedId q = currentlySelectedId p"
    "dateContent q = dateContent p" "selectDate q = selectDate p" "stationList q \<noteq> None"
    "currentStationEl q = currentStationEl p"
    by (simp_all add: q_def currentlySelectedId_def)
  show ?thesis
  proof (cases "stations p")
    case (Cons st sts)
    have "renderStations (selectDate p) Inherited (st # sts) = Inl TypeError"
      by (simp add: stationsAt_def stationsOf_def)
    with inh old Cons have "changePanelContent played p = Inl TypeError"
      by (simp add: changePanelContent_def Let_def truthy_def)
    with run show ?thesis by simp
  next
    case Nil
    have first: "selectFirstWithData played Inherited q = Inr q"
      by (simp add: selectFirstWithData_def q(1))
    have cp: "changePanelContent played p =
        (case currentlySelectedId q of
           None \<Rightarrow> selectFirstWithData played Inherited q
         | Some i \<Rightarrow>
             if i \<noteq> [] then Inl TypeError else selectFirstWithData played Inherited q)"
      using inh old Nil
      by (simp add: changePanelContent_def Let_def truthy_def q_def stationsAt_def stationsOf_def
          split: option.splits)
    from cp run first have "p' = q" by (simp split: option.splits if_splits)
    with q show ?thesis by simp
  qed
qed

lemma changePanelContent_makes_valid:
  assumes list: "stationList p \<noteq> None" and plain: "plainIds p"
      and run: "changePanelContent played p = Inr p'"
  shows "stationList p' \<noteq> None \<and> plainIds p' \<and> selectionValid p'"
proof (cases "dateContent p (selectDate p)")
  case None
  show ?thesis
  proof (cases "selectDate p \<in> set objectPrototypeNames")
    case False
    from changePanelContent_undefined[OF None False, of played] run
    have p': "p' = p\<lparr>console := console p @ [WarnNoDateContent (selectDate p), LogAvailableDateContent]\<rparr>"
      by simp
    then have "currentlySelectedId p' = currentlySelectedId p" "stations p' = stations p"
      "dateContent p' (selectDate p') = None" "stationList p' = stationList p"
      using None by (simp_all add: warned_simps)
    with list plain show ?thesis
      by (simp add: selectionValid_def plainIds_def split: option.splits)
  next
    case True
    from changePanelContent_inherited[OF None True list run] None
    have "stations p' = []" "currentlySelectedId p' = currentlySelectedId p"
      "dateContent p' (selectDate p') = None" "stationList p' \<noteq> None"
      by simp_all
    with plain show ?thesis
      by (simp add: selectionValid_def plainIds_def plainRoster_def split: option.splits)
  qed
next
  case (Some content)
  from plain have roster: "plainRoster (stations p)"
    and sel: "\<And>i. currentlySelectedId p = Some i \<Longrightarrow> plainKey i"
    by (simp_all add: plainIds_def)
  show ?thesis
  proof (cases "renderStations (selectDate p) (Object content) (stations p)")
    case (Inl f)
    from changePanelContent_fault[OF list Some Inl, of played] run show ?thesis by simp
  next
    case (Inr r)
    then obtain sts items lines
      where render: "renderStations (selectDate p) (Object content) (stations p) = Inr (sts, items, lines)"
      by (cases r) auto
    define q where "q = rerendered p content sts items lines"
    note cp = changePanelContent_rerendered[OF list Some render, of played, folded q_def]
    from renderStations_result[OF render]
    have ids: "map st_id sts = map st_id (stations p)" by simp
    have q: "dateContent q (selectDate q) = Some content" "stationList q \<noteq> None"
      "currentlySelectedId q = currentlySelectedId p" "stations q = sts"
      using Some by (simp_all add: q_def rerendered_simps)
    from plainIds_cong[OF q(3), unfolded q(4), OF ids] plain have plainq: "plainIds q" by simp
    note first = selectFirstWithData_makes_valid[OF q(1) q(2) plainq, of played p']
    show ?thesis
    proof (cases "currentlySelectedId p")
      case None
      with cp run have "selectFirstWithData played (Object content) q = Inr p'" by simp
      then show ?thesis by (rule first)
    next
      case (Some i)
      show ?thesis
      proof (cases "i \<noteq> [] \<and> truthy (stationsGet (dc_stations content) i)")
        case False
        with Some cp run have "selectFirstWithData played (Object content) q = Inr p'" by auto
        then show ?thesis by (rule first)
      next
        case True
        with sel[OF Some] obtain dyn where dyn: "so_own (dc_stations content) i = Some dyn"
          by (auto simp: truthy_plain)
        from True Some cp run have run': "selectStation played (Some i) q = Inr p'" by simp
        from selectStation_result[OF run'] q(3) Some
        have cur: "currentlySelectedId p' = Some i" by (auto simp: ToString_def)
        from selectStation_frame[OF run']
        have frame: "dateContent p' = dateContent q" "selectDate p' = selectDate q"
          "stations p' = stations q" "(stationList p' = None) = (stationList q = None)"
          by simp_all
        from frame q(1) have "dateContent p' (selectDate p') = Some content" by simp
        from selectionValid_entry[OF cur this dyn] have "selectionValid p'" .
        moreover from plainq frame(3) cur sel[OF Some] have "plainIds p'"
          by (simp add: plainIds_def)
        ultimately show ?thesis using frame(4) q(2) by simp
      qed
    qed
  qed
qed

lemma step_keeps_valid:
  assumes "stationList p \<noteq> None \<and> plainIds p \<and> selectionValid p" and "step e played p = Inr p'"
  shows "stationList p' \<noteq> None \<and> plainIds p' \<and> selectionValid p'"
proof (cases e)
  case (SetDate d)
  with assms(2) have run: "changePanelContent played (p\<lparr>selectDate := d\<rparr>) = Inr p'"
    by (simp add: step_def)
  from assms(1) have "stationList (p\<lparr>selectDate := d\<rparr>) \<noteq> None" "plainIds (p\<lparr>selectDate := d\<rparr>)"
    by (simp_all add: plainIds_def currentlySelectedId_def)
  from changePanelContent_makes_valid[OF this run] show ?thesis .
next
  case (SelectStation sid)
  with assms(2) have sel: "selectStation played sid p = Inr p'" by (simp add: step_def)
  from selectStation_keeps_valid[OF assms(1) sel] show ?thesis .
qed

lemma run_keeps_valid:
  "stationList p \<noteq> None \<and> plainIds p \<and> selectionValid p \<Longrightarrow> run evs p = Inr p' \<Longrightarrow>
   stationList p' \<noteq> None \<and> plainIds p' \<and> selectionValid p'"
proof (induction evs arbitrary: p)
  case Nil
  then show ?case by simp
next
  case (Cons ev evs)
  obtain e played where ev: "ev = (e, played)" by (cases ev)
  with Cons.prems(2) obtain q where q: "step e played p = Inr q" "run evs q = Inr p'"
    by (auto split: sum.splits)
  from step_keeps_valid[OF Cons.prems(1) q(1)] Cons.IH q(2) show ?case by blast
qed

text \<open>
  A change to a known date under which no roster station has an entry returns and keeps the
  selected id.
\<close>

lemma setDate_retains:
  assumes list: "stationList p \<noteq> None" and roster: "plainRoster (stations p)"
      and date: "dateContent p d = Some content"
      and none: "\<not> list_ex (hasEntry content) (stations p)"
  shows "\<exists>q. step (SetDate d) played p = Inr q \<and> currentlySelectedId q = currentlySelectedId p"
proof -
  define p0 where "p0 = p\<lparr>selectDate := d\<rparr>"
  have p0: "stationList p0 \<noteq> None" "dateContent p0 (selectDate p0) = Some content"
    "stations p0 = stations p" "currentlySelectedId p0 = currentlySelectedId p"
    using list date by (simp_all add: p0_def currentlySelectedId_def)
  have nofind: "find (hasData content) (stations p) = None"
    using none by (simp add: find_hasData_plain[OF roster] find_None_iff list_ex_iff)
  then have nodata: "\<not> list_ex (hasData content) (stations p)"
    by (simp add: find_None_iff list_ex_iff)
  define q where "q = rerendered p0 content (stations p) []
      (map (\<lambda>s. LogNoDynamicData (st_id s) (selectDate p0)) (stations p))"
  have render: "renderStations (selectDate p0) (Object content) (stations p0) =
      Inr (stations p, [], map (\<lambda>s. LogNoDynamicData (st_id s) (selectDate p0)) (stations p))"
    unfolding p0(3) by (rule renderStations_none[OF nodata])
  note cp = changePanelContent_rerendered[OF p0(1,2) render, of played, folded q_def, unfolded p0(4)]
  have q: "stations q = stations p" "currentlySelectedId q = currentlySelectedId p"
    "dateContent q (selectDate q) = Some content"
    using p0 by (simp_all add: q_def rerendered_simps)
  have first: "selectFirstWithData played (Object content) q = Inr q"
    by (simp add: selectFirstWithData_hasData q(1) nofind)
  have "\<exists>q'. changePanelContent played p0 = Inr q' \<and> currentlySelectedId q' = currentlySelectedId p"
  proof (cases "\<exists>i. currentlySelectedId p = Some i \<and> i \<noteq> [] \<and>
      truthy (stationsGet (dc_stations content) i)")
    case False
    then have "changePanelContent played p0 = selectFirstWithData played (Object content) q"
      by (auto simp: cp split: option.splits)
    with first q(2) show ?thesis by simp
  next
    case True
    then obtain i where i: "currentlySelectedId p = Some i" "i \<noteq> []"
      "truthy (stationsGet (dc_stations content) i)" by blast
    then have run: "changePanelContent played p0 = selectStation played (Some i) q"
      by (simp add: cp)
    have look: "optionalStationsAt (dateGet (dateContent q) (selectDate q)) (ToString (Some i)) =
        Inr (stationsGet (dc_stations content) (ToString (Some i)))"
      using q(3) by (simp add: optionalStationsAt_def dateGet_known stationsAt_known)
    have "find (\<lambda>s. st_id s = Some i) (stations q) = None"
    proof (cases "find (\<lambda>s. st_id s = Some i) (stations q)")
      case None
      then show ?thesis .
    next
      case (Some t)
      then have "t \<in> set (stations p)" "st_id t = Some i" by (auto dest: find_Some_set simp: q(1))
      with i(3) have "t \<in> set (stations p)" "hasData content t"
        by (simp_all add: hasData_def ToString_def)
      with nodata show ?thesis by (auto simp: list_ex_iff)
    qed
    then have "selectStation played (Some i) q =
        Inr (q\<lparr>console := console q @ [WarnNoStationData (Some i) (selectDate q)]\<rparr>)"
      by (simp add: selectStation_cases[OF look])
    with run q(2) show ?thesis by (simp add: warned_simps)
  qed
  then show ?thesis by (simp add: step_SetDate p0_def)
qed

subsection \<open>Station ids of a date\<close>

text \<open>The transformer never stores an entry under the empty id.\<close>

lemma addStationData_no_blank:
  "so_own entries [] = None \<Longrightarrow> so_own (addStationData r entries) [] = None"
  by (simp add: addStationData_def stationsSet_def split: option.splits)

lemma fold_addStationData_no_blank:
  "so_own entries [] = None \<Longrightarrow> so_own (fold addStationData rows entries) [] = None"
  by (induction rows arbitrary: entries) (simp_all add: addStationData_no_blank)

lemma processTabs_no_blank:
  "processTabs allSheets tabs dc = Inr dc' \<Longrightarrow>
   (\<And>d c. dc d = Some c \<Longrightarrow> so_own (dc_stations c) [] = None) \<Longrightarrow>
   dc' d = Some c \<Longrightarrow> so_own (dc_stations c) [] = None"
proof (induction tabs arbitrary: dc)
  case Nil
  then show ?case by simp
next
  case (Cons tab tabs)
  show ?case
  proof (cases "tab \<noteq> ''Master''")
    case False
    with Cons show ?thesis by simp
  next
    case True
    with Cons.prems(1) obtain rows where rows: "allSheets tab = Some rows"
      by (cases "allSheets tab") auto
    let ?dc = "dc(tab \<mapsto>
        \<lparr>dc_title = ''February '' @ replaceFirst ''Feb'' [] tab, dc_context = ''context'',
         dc_stations = fold addStationData rows emptyStations\<rparr>)"
    from True rows Cons.prems(1) have run: "processTabs allSheets tabs ?dc = Inr dc'" by simp
    have "so_own (dc_stations c') [] = None" if "?dc d' = Some c'" for d' c'
      using that Cons.prems(2)[of d' c']
      by (cases "d' = tab") (auto simp: fold_addStationData_no_blank emptyStations_def)
    from Cons.IH[OF run this Cons.prems(3)] show ?thesis .
  qed
qed

lemma transformSheetData_no_blank:
  "transformSheetData allSheets = Inr (sts, dc) \<Longrightarrow> dc d = Some c \<Longrightarrow>
   so_own (dc_stations c) [] = None"
  by (auto simp: transformSheetData_def split: option.splits sum.splits
      elim: processTabs_no_blank[where dc = Map.empty, rotated 2])

subsection \<open>Ready pages\<close>

lemma selectStation_keeps_ready:
  assumes "pageReady p" "selectStation played sid p = Inr p'"
  shows "pageReady p'"
  using selectStation_result[OF assms(2)] assms(1) by (simp add: pageReady_def)

lemma changePanelContent_keeps_ready:
  assumes ready: "pageReady p" and run: "changePanelContent played p = Inr p'"
  shows "pageReady p'"
proof (cases "dateContent p (selectDate p)")
  case None
  from ready have list: "stationList p \<noteq> None" by (simp add: pageReady_def)
  show ?thesis
  proof (cases "selectDate p \<in> set objectPrototypeNames")
    case False
    from changePanelContent_undefined[OF None False, of played] run ready show ?thesis
      by (auto simp: pageReady_def)
  next
    case True
    from changePanelContent_inherited[OF None True list run] ready show ?thesis
      by (simp add: pageReady_def)
  qed
next
  case (Some content)
  from ready have list: "stationList p \<noteq> None" and el: "currentStationEl p \<noteq> None"
    and markers: "list_all (\<lambda>s. st_marker s \<noteq> None) (stations p)"
    by (simp_all add: pageReady_def)
  from renderStations_ok[OF markers] obtain sts items lines
    where render: "renderStations (selectDate p) (Object content) (stations p) = Inr (sts, items, lines)"
    by blast
  define q where "q = rerendered p content sts items lines"
  note cp = changePanelContent_rerendered[OF list Some render, of played, folded q_def]
  from renderStations_result[OF render] markers
  have "list_all (\<lambda>s. st_marker s \<noteq> None) sts" by simp
  with el have q: "pageReady q" by (simp add: pageReady_def q_def rerendered_simps)
  have first: "pageReady p'" if "selectFirstWithData played (Object content) q = Inr p'"
  proof (cases "find (hasData content) (stations q)")
    case None
    with that have "p' = q" by (simp add: selectFirstWithData_hasData split: if_splits)
    with q show ?thesis by simp
  next
    case (Some f)
    with that have "selectStation played (st_id f) q = Inr p'"
      by (simp add: selectFirstWithData_hasData split: if_splits)
    from selectStation_keeps_ready[OF q this] show ?thesis .
  qed
  show ?thesis
  proof (cases "\<exists>i. currentlySelectedId p = Some i \<and> i \<noteq> [] \<and>
      truthy (stationsGet (dc_stations content) i)")
    case False
    then have "changePanelContent played p = selectFirstWithData played (Object content) q"
      by (auto simp: cp split: option.splits)
    with run first show ?thesis by simp
  next
    case True
    then obtain i where "currentlySelectedId p = Some i" "i \<noteq> []"
      "truthy (stationsGet (dc_stations content) i)" by blast
    then have "changePanelContent played p = selectStation played (Some i) q"
      by (simp add: cp)
    with run selectStation_keeps_ready[OF q] show ?thesis by simp
  qed
qed

lemma addMarker_ids: "map st_id (map addMarker sts) = map st_id sts"
  by (induction sts) (simp_all add: addMarker_def)

lemma addMarker_markers: "list_all (\<lambda>s. st_marker s \<noteq> None) (map addMarker sts)"
  by (induction sts) (simp_all add: addMarker_def)

lemma initializeApplication_ready:
  assumes "stationList p \<noteq> None" "currentStationEl p \<noteq> None"
      and "initializeApplication played p = Inr p0"
  shows "pageReady p0"
proof -
  let ?start = "setupDateSelector (initializeAudioPlayer (p\<lparr>stations := map addMarker (stations p)\<rparr>))"
  from assms(1,2) addMarker_markers[of "stations p"] have "pageReady ?start"
    by (simp add: pageReady_def setupDateSelector_def initializeAudioPlayer_def)
  moreover from assms(3) have "changePanelContent played ?start = Inr p0"
    by (simp add: initializeApplication_def)
  ultimately show ?thesis by (rule changePanelContent_keeps_ready)
qed

lemma run_keeps_ready:
  "pageReady p \<Longrightarrow> run evs p = Inr p' \<Longrightarrow> pageReady p'"
proof (induction evs arbitrary: p)
  case Nil
  then show ?case by simp
next
  case (Cons ev evs)
  obtain e played where ev: "ev = (e, played)" by (cases ev)
  with Cons.prems(2) obtain q where q: "step e played p = Inr q" "run evs q = Inr p'"
    by (auto split: sum.splits)
  have "pageReady q"
  proof (cases e)
    case (SetDate d)
    with q(1) have "changePanelContent played (p\<lparr>selectDate := d\<rparr>) = Inr q"
      by (simp add: step_def)
    moreover from Cons.prems(1) have "pageReady (p\<lparr>selectDate := d\<rparr>)"
      by (simp add: pageReady_def)
    ultimately show ?thesis by (rule changePanelContent_keeps_ready[rotated])
  next
    case (SelectStation sid)
    with q(1) have "selectStation played sid p = Inr q" by (simp add: step_def)
    from selectStation_keeps_ready[OF Cons.prems(1) this] show ?thesis .
  qed
  from Cons.IH[OF this q(2)] show ?case .
qed

text \<open>
  C2, amended. On a document that has the station list and whose roster ids and selected id
  are plain keys, every page reached from \<open>initializeApplication\<close> by date changes and
  station selections satisfies: whenever a station id is selected, the selected date is known
  and some roster station has an entry under it, the selected id has an entry under it too;
  and a change to a known date under which no roster station has an entry returns and keeps
  the selected id as it was.
\<close>

theorem selection_valid_when_reachable:
  assumes "stationList p \<noteq> None" and "plainIds p"
      and "initializeApplication played p = Inr p0"
      and "run evs p0 = Inr p'"
  shows "selectionValid p' \<and>
         (\<forall>d content played'.
            dateContent p' d = Some content \<and> \<not> list_ex (hasEntry content) (stations p') \<longrightarrow>
            (\<exists>q. step (SetDate d) played' p' = Inr q \<and>
                 currentlySelectedId q = currentlySelectedId p'))"
proof -
  let ?start = "setupDateSelector (initializeAudioPlayer (p\<lparr>stations := map addMarker (stations p)\<rparr>))"
  from assms(1) have list: "stationList ?start \<noteq> None"
    by (simp add: setupDateSelector_def initializeAudioPlayer_def)
  have "currentlySelectedId ?start = currentlySelectedId p"
    "map st_id (stations ?start) = map st_id (stations p)"
    by (simp_all add: setupDateSelector_def initializeAudioPlayer_def currentlySelectedId_def
        addMarker_def)
  from plainIds_cong[OF this] assms(2) have plain: "plainIds ?start" by simp
  from assms(3) have "changePanelContent played ?start = Inr p0"
    by (simp add: initializeApplication_def)
  from changePanelContent_makes_valid[OF list plain this]
  have "stationList p0 \<noteq> None \<and> plainIds p0 \<and> selectionValid p0" .
  from run_keeps_valid[OF this assms(4)]
  have inv: "stationList p' \<noteq> None" "plainRoster (stations p')" "selectionValid p'"
    by (simp_all add: plainIds_def)
  have "\<exists>q. step (SetDate d) played' p' = Inr q \<and> currentlySelectedId q = currentlySelectedId p'"
    if "dateContent p' d = Some content \<and> \<not> list_ex (hasEntry content) (stations p')"
    for d content played'
    using that setDate_retains[OF inv(1,2), of d content played'] by simp
  with inv(3) show ?thesis by blast
qed

subsection \<open>The example pages\<close>

lemmas model_defs = loadAllTabs_def transformSheetData_def sheetTabs_def masterStation_def
  addStationData_def orElse_def trim_def isStrWhiteSpaceChar_def
  initializeApplication_def initializeAudioPlayer_def setupDateSelector_def addMarker_def
  changePanelContent_def selectFirstWithData_def selectStation_def currentlySelectedId_def
  autoPlaySettled_def resetProgress_def ToString_def textContentOf_def Let_def
  parseFloat_def strUnsignedDecimalLiteral_def isDecimalDigit_def digitsValue_def exponentPart_def
  dateGet_def stationsGet_def stationsSet_def emptyStations_def truthy_def stationsAt_def
  stationsOf_def optionalStationsAt_def titleOf_def contextOf_def descriptionOf_def
  audioUrlOf_def objectPrototypeNames_def

lemmas demo_defs = demoReady_def demoLoaded_def demoContent_def demoAfter_def demoSheets_def
  demoDocument_def step_def

lemmas odd_defs = oddReady_def oddSelected_def oddSheets_def demoDocument_def oddContent_def
  oddAfter_def step_def

lemma demo_loaded: "loadAllTabs Fulfilled demoSheets demoDocument = Inr demoReady"
  by (simp add: demoReady_def demoSheets_def demoDocument_def model_defs)

lemma demo_init: "initializeApplication Fulfilled demoLoaded = Inr demoReady"
  by (simp add: demo_defs model_defs)

lemma demo_ready: "pageReady demoReady"
  by (simp add: pageReady_def demo_defs model_defs)

lemma demo_plain: "plainIds demoLoaded" "plainIds demoReady"
  by (simp_all add: plainIds_def plainRoster_def plainKey_def demo_defs model_defs)

lemma demo_state:
  "selectDate demoReady = ''Feb22''"
  "currentlySelectedId demoReady = Some ''s1''"
  "map st_id (stations demoReady) = [Some ''s1'', Some ''s2'']"
  "audio_src demoReady = Some ''a1.mp3''"
  by (simp_all add: demo_defs model_defs)

lemma demo_dates:
  "dateContent demoReady ''Feb23'' = Some (demoContent ''Feb23'')"
  "dateContent demoReady ''Feb24'' = Some (demoContent ''Feb24'')"
  "dateContent demoReady ''Feb25'' = Some (demoContent ''Feb25'')"
  "dateContent demoReady ''Mar01'' = None"
  "dateContent demoReady ''constructor'' = None"
  by (simp_all add: demo_defs model_defs)

lemma demo_entries:
  "so_own (dc_stations (demoContent ''Feb23'')) [] = None"
  "so_own (dc_stations (demoContent ''Feb23'')) ''s1'' = None"
  "so_own (dc_stations (demoContent ''Feb24'')) [] = None"
  "so_own (dc_stations (demoContent ''Feb24'')) ''s1'' = None"
  "so_own (dc_stations (demoContent ''Feb25'')) [] = None"
  "so_own (dc_stations (demoContent ''Feb25'')) ''s1'' \<noteq> None"
  by (simp_all add: demo_defs model_defs)

lemma demo_first:
  "map_option st_id (find (hasEntry (demoContent ''Feb23'')) (stations demoReady)) = Some (Some ''s2'')"
  "find (hasEntry (demoContent ''Feb24'')) (stations demoReady) = None"
  "\<not> list_ex (hasEntry (demoContent ''Feb24'')) (stations demoReady)"
  by (simp_all add: hasEntry_def demo_defs model_defs)

text \<open>
  C1, as the claim states it, fails. On the example page after loading, \<open>s1\<close> is selected and
  its audio is loaded. No roster station has an entry under \<open>Feb24\<close>; after the change to
  \<open>Feb24\<close> a station is selected all the same: the selected id is still \<open>s1\<close> and the audio
  source is still that of \<open>s1\<close> under the previous date. And on the second example page,
  where no roster station has an entry under \<open>Feb23\<close>, the change to \<open>Feb23\<close> selects the
  station \<open>toString\<close>, whose id names a property that every object inherits.
\<close>

theorem setDate_keeps_selection_counterexample:
  "dateContent demoReady ''Feb24'' = Some (demoContent ''Feb24'') \<and>
   \<not> list_ex (hasEntry (demoContent ''Feb24'')) (stations demoReady) \<and>
   currentlySelectedId demoReady = Some ''s1'' \<and>
   step (SetDate ''Feb24'') Fulfilled demoReady = Inr (demoAfter [(SetDate ''Feb24'', Fulfilled)]) \<and>
   currentlySelectedId (demoAfter [(SetDate ''Feb24'', Fulfilled)]) = Some ''s1'' \<and>
   audio_src (demoAfter [(SetDate ''Feb24'', Fulfilled)]) = Some ''a1.mp3'' \<and>
   dateContent oddReady ''Feb23'' = Some (oddContent ''Feb23'') \<and>
   \<not> list_ex (hasEntry (oddContent ''Feb23'')) (stations oddReady) \<and>
   step (SetDate ''Feb23'') Fulfilled oddReady = Inr (oddAfter [(SetDate ''Feb23'', Fulfilled)]) \<and>
   currentlySelectedId (oddAfter [(SetDate ''Feb23'', Fulfilled)]) = Some ''toString''"
  by (simp add: hasEntry_def odd_defs demo_defs model_defs)

text \<open>
  C1, amended, on the example page, where \<open>s1\<close> is selected: under \<open>Feb25\<close> it stays
  selected; under \<open>Feb23\<close> the first station with an entry, \<open>s2\<close>, becomes selected; under
  \<open>Feb24\<close> the selected id is as before and the list is empty.
\<close>

theorem setDate_selection_witness:
  "step (SetDate ''Feb25'') Fulfilled demoReady = Inr (demoAfter [(SetDate ''Feb25'', Fulfilled)]) \<and>
   currentlySelectedId (demoAfter [(SetDate ''Feb25'', Fulfilled)]) = Some ''s1'' \<and>
   step (SetDate ''Feb23'') Fulfilled demoReady = Inr (demoAfter [(SetDate ''Feb23'', Fulfilled)]) \<and>
   currentlySelectedId (demoAfter [(SetDate ''Feb23'', Fulfilled)]) = Some ''s2'' \<and>
   step (SetDate ''Feb24'') Rejected demoReady = Inr (demoAfter [(SetDate ''Feb24'', Rejected)]) \<and>
   currentlySelectedId (demoAfter [(SetDate ''Feb24'', Rejected)]) = currentlySelectedId demoReady \<and>
   stationList (demoAfter [(SetDate ''Feb24'', Rejected)]) = Some []"
proof -
  have run25: "step (SetDate ''Feb25'') Fulfilled demoReady =
      Inr (demoAfter [(SetDate ''Feb25'', Fulfilled)])"
    by (simp add: demo_defs model_defs)
  have run23: "step (SetDate ''Feb23'') Fulfilled demoReady =
      Inr (demoAfter [(SetDate ''Feb23'', Fulfilled)])"
    by (simp add: demo_defs model_defs)
  have run24: "step (SetDate ''Feb24'') Rejected demoReady =
      Inr (demoAfter [(SetDate ''Feb24'', Rejected)])"
    by (simp add: demo_defs model_defs)
  note t25 = setDate_selection[OF demo_ready demo_plain(2) demo_dates(3) demo_entries(5),
      of Fulfilled, unfolded run25]
  note t23 = setDate_selection[OF demo_ready demo_plain(2) demo_dates(1) demo_entries(1),
      of Fulfilled, unfolded run23]
  note t24 = setDate_selection[OF demo_ready demo_plain(2) demo_dates(2) demo_entries(3),
      of Rejected, unfolded run24]
  from t25 have "\<forall>i. currentlySelectedId demoReady = Some i \<and>
      so_own (dc_stations (demoContent ''Feb25'')) i \<noteq> None \<longrightarrow>
      currentlySelectedId (demoAfter [(SetDate ''Feb25'', Fulfilled)]) = Some i"
    by simp
  with demo_state(2) demo_entries(6)
  have first: "currentlySelectedId (demoAfter [(SetDate ''Feb25'', Fulfilled)]) = Some ''s1''"
    by simp
  from demo_first(1) obtain st
    where st: "find (hasEntry (demoContent ''Feb23'')) (stations demoReady) = Some st"
      "st_id st = Some ''s2''" by auto
  from t23 have "\<forall>st. (\<forall>i. currentlySelectedId demoReady = Some i \<longrightarrow>
        so_own (dc_stations (demoContent ''Feb23'')) i = None) \<and>
      find (hasEntry (demoContent ''Feb23'')) (stations demoReady) = Some st \<longrightarrow>
      currentlySelectedId (demoAfter [(SetDate ''Feb23'', Fulfilled)]) = Some (ToString (st_id st))"
    by simp
  from this[rule_format, of st] demo_state(2) st demo_entries(2)
  have second: "currentlySelectedId (demoAfter [(SetDate ''Feb23'', Fulfilled)]) = Some ''s2''"
    by (simp add: ToString_def)
  from t24 demo_first(2)
  have third: "currentlySelectedId (demoAfter [(SetDate ''Feb24'', Rejected)]) =
        currentlySelectedId demoReady \<and>
      stationList (demoAfter [(SetDate ''Feb24'', Rejected)]) = Some []"
    by simp
  from run25 first run23 second run24 third show ?thesis by simp
qed

text \<open>
  C2, as the claim states it, fails. On the example page after loading, the user selects
  \<open>s2\<close> and then changes the date to \<open>Feb24\<close>, under which no station has an entry: the
  selected id is still \<open>s2\<close>, and it has no entry under the selected date. And on the second
  example page the user selects \<open>toString\<close>, which has no entry under the selected date
  \<open>Feb22\<close>, while \<open>s1\<close> has one: the selected id is \<open>toString\<close>.
\<close>

theorem stale_selection_counterexample:
  "loadAllTabs Fulfilled demoSheets demoDocument = Inr demoReady \<and>
   run [(SelectStation (Some ''s2''), Fulfilled), (SetDate ''Feb24'', Fulfilled)] demoReady =
     Inr (demoAfter [(SelectStation (Some ''s2''), Fulfilled), (SetDate ''Feb24'', Fulfilled)]) \<and>
   currentlySelectedId
     (demoAfter [(SelectStation (Some ''s2''), Fulfilled), (SetDate ''Feb24'', Fulfilled)]) =
     Some ''s2'' \<and>
   selectDate
     (demoAfter [(SelectStation (Some ''s2''), Fulfilled), (SetDate ''Feb24'', Fulfilled)]) =
     ''Feb24'' \<and>
   \<not> selectionHasEntry
     (demoAfter [(SelectStation (Some ''s2''), Fulfilled), (SetDate ''Feb24'', Fulfilled)]) \<and>
   loadAllTabs Fulfilled oddSheets demoDocument = Inr oddReady \<and>
   run [(SelectStation (Some ''toString''), Fulfilled)] oddReady =
     Inr (oddAfter [(SelectStation (Some ''toString''), Fulfilled)]) \<and>
   currentlySelectedId (oddAfter [(SelectStation (Some ''toString''), Fulfilled)]) =
     Some ''toString'' \<and>
   \<not> selectionHasEntry (oddAfter [(SelectStation (Some ''toString''), Fulfilled)]) \<and>
   \<not> selectionValid (oddAfter [(SelectStation (Some ''toString''), Fulfilled)])"
  by (simp add: selectionHasEntry_def selectionValid_def hasEntry_def odd_defs demo_defs model_defs)

text \<open>
  C2, amended, on the example page: after a change to \<open>Feb24\<close>, a selection of \<open>s2\<close>
  (refused, as \<open>s2\<close> has no entry under \<open>Feb24\<close>) and a change to \<open>Feb23\<close>, the selected
  id \<open>s2\<close> has its entry; a further change to \<open>Feb24\<close> returns and keeps \<open>s2\<close>.
\<close>

theorem selection_valid_when_reachable_witness:
  "stationList demoLoaded \<noteq> None \<and> plainIds demoLoaded \<and>
   initializeApplication Fulfilled demoLoaded = Inr demoReady \<and>
   run [(SetDate ''Feb24'', Rejected), (SelectStation (Some ''s2''), Fulfilled),
        (SetDate ''Feb23'', Fulfilled)] demoReady =
     Inr (demoAfter [(SetDate ''Feb24'', Rejected), (SelectStation (Some ''s2''), Fulfilled),
        (SetDate ''Feb23'', Fulfilled)]) \<and>
   selectionValid (demoAfter [(SetDate ''Feb24'', Rejected), (SelectStation (Some ''s2''), Fulfilled),
        (SetDate ''Feb23'', Fulfilled)]) \<and>
   currentlySelectedId (demoAfter [(SetDate ''Feb24'', Rejected),
        (SelectStation (Some ''s2''), Fulfilled), (SetDate ''Feb23'', Fulfilled)]) = Some ''s2'' \<and>
   (\<exists>q. step (SetDate ''Feb24'') Fulfilled
          (demoAfter [(SetDate ''Feb24'', Rejected), (SelectStation (Some ''s2''), Fulfilled),
             (SetDate ''Feb23'', Fulfilled)]) = Inr q \<and>
        currentlySelectedId q = Some ''s2'')"
proof -
  let ?evs = "[(SetDate ''Feb24'', Rejected), (SelectStation (Some ''s2''), Fulfilled),
        (SetDate ''Feb23'', Fulfilled)]"
  have list: "stationList demoLoaded \<noteq> None"
    by (simp add: demo_defs model_defs)
  have run: "run ?evs demoReady = Inr (demoAfter ?evs)"
    by (simp add: demo_defs model_defs)
  have cur: "currentlySelectedId (demoAfter ?evs) = Some ''s2''"
    by (simp add: demo_defs model_defs)
  have date: "dateContent (demoAfter ?evs) ''Feb24'' = Some (demoContent ''Feb24'')"
    by (simp add: demo_defs model_defs)
  have none: "\<not> list_ex (hasEntry (demoContent ''Feb24'')) (stations (demoAfter ?evs))"
    by (simp add: hasEntry_def demo_defs model_defs)
  note inst = selection_valid_when_reachable[OF list demo_plain(1) demo_init run]
  from inst have valid: "selectionValid (demoAfter ?evs)" by (rule conjunct1)
  from inst[THEN conjunct2, rule_format, of "''Feb24''" "demoContent ''Feb24''" Fulfilled,
      OF conjI[OF date none]] cur
  have keep: "\<exists>q. step (SetDate ''Feb24'') Fulfilled (demoAfter ?evs) = Inr q \<and>
      currentlySelectedId q = Some ''s2''"
    by simp
  from list demo_plain(1) demo_init run valid cur keep show ?thesis
    by (intro conjI)
qed

text \<open>
  C5 does not hold of an id that names an inherited property. On the second example page the
  roster station \<open>toString\<close> has no entry under the selected date \<open>Feb22\<close>, and \<open>s1\<close> is
  selected. A call of \<open>selectStation\<close> with \<open>toString\<close> reads the function that every
  object inherits under that name, which is truthy, so the guard does not return: the call
  selects the station, empties the description and sets the audio source to the text
  \<open>undefined\<close>. And on the first example page with the date selector holding
  \<open>constructor\<close>, a call with an id that no roster station has faults.
\<close>

theorem selectStation_inherited_name:
  "loadAllTabs Fulfilled oddSheets demoDocument = Inr oddReady \<and>
   selectDate oddReady = ''Feb22'' \<and>
   map st_id (stations oddReady) = [Some ''s1'', Some ''toString''] \<and>
   (case dateContent oddReady ''Feb22'' of
      None \<Rightarrow> None
    | Some content \<Rightarrow> so_own (dc_stations content) ''toString'') = None \<and>
   currentlySelectedId oddReady = Some ''s1'' \<and> audio_src oddReady = Some ''a1.mp3'' \<and>
   stationDescriptionEl oddReady = ''d1'' \<and>
   selectStation Fulfilled (Some ''toString'') oddReady = Inr oddSelected \<and>
   currentlySelectedId oddSelected = Some ''toString'' \<and>
   audio_src oddSelected = Some ''undefined'' \<and>
   stationDescriptionEl oddSelected = [] \<and>
   find (\<lambda>s. st_id s = Some ''s9'') (stations demoReady) = None \<and>
   selectStation Fulfilled (Some ''s9'') (demoReady\<lparr>selectDate := ''constructor''\<rparr>) = Inl TypeError"
  by (simp add: odd_defs demo_defs model_defs)



end
